theory Spec2Isabelle
  imports Complex_Main "HOL-Library.Word"
begin

chapter \<open>BookMind: the model\<close>

text \<open>
  BookMind is a browser application: a PDF is uploaded, its text is extracted, a
  remote language model identifies the chapters, and the user asks for an analysis
  of one chapter, which can be read aloud. This part of the development translates
  the TypeScript sources into HOL, function by function and under the names of the
  sources; the second part proves the properties.

  A JavaScript string is a list of code units. The model covers texts whose code
  units are below 256 (ASCII and Latin-1), one \<open>char\<close> each. A value that can be
  \<open>null\<close> or \<open>undefined\<close> is an \<open>option\<close>. A function that can throw returns
  \<open>js_error + 'a\<close>, and a remote call is recorded in the list of requests a
  handler returns beside its result.
\<close>

section \<open>Strings and regular expressions of the run time\<close>

datatype js_error =
    InvalidCharacterError
  | RangeError
  | Error string

definition nl :: char where
  "nl = CHR 0x0A"

definition backslash :: char where
  "backslash = CHR 0x5C"

definition dquote :: char where
  "dquote = CHR 0x22"

text \<open>
  The class \<open>\s\<close> of a regular expression, which is also what \<open>trim()\<close> strips:
  tab, line feed, vertical tab, form feed, carriage return, space and the
  no-break space.
\<close>

definition is_space :: "char \<Rightarrow> bool" where
  "is_space c = ((of_char c :: nat) \<in> {9, 10, 11, 12, 13, 32, 160})"

definition is_digit :: "char \<Rightarrow> bool" where
  "is_digit c = (48 \<le> (of_char c :: nat) \<and> (of_char c :: nat) \<le> 57)"

text \<open>
  Under the flag \<open>i\<close> two code units match when their canonical forms are equal.
  The canonical form is the upper-case letter: \<open>a\<close> to \<open>z\<close>, and the Latin-1
  letters 224 to 254 without the division sign, move down by 32. The sharp s, the
  micro sign and the y with diaeresis have no Latin-1 partner and stay.
\<close>

definition canonicalize :: "char \<Rightarrow> char" where
  "canonicalize c =
     (let n = (of_char c :: nat)
      in if (97 \<le> n \<and> n \<le> 122) \<or> (224 \<le> n \<and> n \<le> 254 \<and> n \<noteq> 247)
         then char_of (n - 32) else c)"

definition trim :: "string \<Rightarrow> string" where
  "trim s = rev (dropWhile is_space (rev (dropWhile is_space s)))"

text \<open>\<open>s.slice(a, b)\<close> for indices that are not negative.\<close>

definition string_slice :: "string \<Rightarrow> nat \<Rightarrow> nat \<Rightarrow> string" where
  "string_slice s a b = take (b - a) (drop a s)"

text \<open>\<open>xs.join(sep)\<close> and \<open>s.split(sep)\<close> for a separator of one character.\<close>

fun join :: "string \<Rightarrow> string list \<Rightarrow> string" where
  "join sep [] = []"
| "join sep [x] = x"
| "join sep (x # y # r) = x @ sep @ join sep (y # r)"

fun split_on :: "char \<Rightarrow> string \<Rightarrow> string list" where
  "split_on sep [] = [[]]"
| "split_on sep (c # cs) =
     (if c = sep then [] # split_on sep cs
      else (case split_on sep cs of
              [] \<Rightarrow> [[c]]
            | w # ws \<Rightarrow> (c # w) # ws))"

text \<open>
  \<open>s.split(/\s+/)\<close>: the pieces between maximal runs of white space. A run at the
  start or at the end of \<open>s\<close> leaves an empty piece there; the empty string gives
  one empty piece.
\<close>

function split_ws_from :: "string \<Rightarrow> string \<Rightarrow> string list" where
  "split_ws_from piece [] = [piece]"
| "split_ws_from piece (c # cs) =
     (if is_space c then piece # split_ws_from [] (dropWhile is_space cs)
      else split_ws_from (piece @ [c]) cs)"
  by pat_completeness auto
termination
  by (relation "measure (\<lambda>(piece, s). length s)")
     (auto simp: le_imp_less_Suc length_dropWhile_le)

definition split_ws :: "string \<Rightarrow> string list" where
  "split_ws s = split_ws_from [] s"

text \<open>\<open>s.replace(/\s+/g, ' ')\<close>.\<close>

function collapse_ws :: "string \<Rightarrow> string" where
  "collapse_ws [] = []"
| "collapse_ws (c # cs) =
     (if is_space c then CHR '' '' # collapse_ws (dropWhile is_space cs)
      else c # collapse_ws cs)"
  by pat_completeness auto
termination
  by (relation "measure length") (auto simp: le_imp_less_Suc length_dropWhile_le)

text \<open>
  The regular expressions the sources build from text are sequences of atoms, each
  a literal character or the class \<open>\s\<close>, an atom possibly followed by \<open>+\<close>. The
  constructor \<open>RegExp\<close> reads the pattern text: a backslash before \<open>s\<close> is the
  class, a backslash before another character makes it literal. All of them carry
  the flag \<open>i\<close>.
\<close>

datatype re_atom = Lit char | Space

datatype re_item = One re_atom | Plus re_atom

datatype re_token = Atom re_atom | Quantifier

fun re_tokens :: "string \<Rightarrow> re_token list" where
  "re_tokens [] = []"
| "re_tokens (c # cs) =
     (if c = backslash then
        (case cs of
           [] \<Rightarrow> [Atom (Lit c)]
         | d # ds \<Rightarrow> Atom (if d = CHR ''s'' then Space else Lit d) # re_tokens ds)
      else if c = CHR ''+'' then Quantifier # re_tokens cs
      else Atom (Lit c) # re_tokens cs)"

fun re_items :: "re_token list \<Rightarrow> re_item list" where
  "re_items [] = []"
| "re_items (Atom a # Quantifier # r) = Plus a # re_items r"
| "re_items (Atom a # r) = One a # re_items r"
| "re_items (Quantifier # r) = re_items r"

definition RegExp :: "string \<Rightarrow> re_item list" where
  "RegExp pattern = re_items (re_tokens pattern)"

definition atom_matches :: "re_atom \<Rightarrow> char \<Rightarrow> bool" where
  "atom_matches a x =
     (case a of
        Lit c \<Rightarrow> canonicalize x = canonicalize c
      | Space \<Rightarrow> is_space x)"

text \<open>
  The backtracking matcher. \<open>match_here p s\<close> is the length of the match of \<open>p\<close> at
  the start of \<open>s\<close>. A repeated atom first takes as many characters as it can and
  gives them back one at a time while the rest of the pattern fails.
\<close>

fun try_rep :: "(string \<Rightarrow> nat option) \<Rightarrow> string \<Rightarrow> nat \<Rightarrow> nat option" where
  "try_rep rest s 0 = None"
| "try_rep rest s (Suc k) =
     (case rest (drop (Suc k) s) of
        Some n \<Rightarrow> Some (Suc k + n)
      | None \<Rightarrow> try_rep rest s k)"

primrec match_here :: "re_item list \<Rightarrow> string \<Rightarrow> nat option" where
  "match_here [] = (\<lambda>s. Some 0)"
| "match_here (x # p) =
     (\<lambda>s. case x of
            One a \<Rightarrow>
              (case s of
                 [] \<Rightarrow> None
               | y # ys \<Rightarrow> if atom_matches a y then map_option Suc (match_here p ys) else None)
          | Plus a \<Rightarrow> try_rep (match_here p) s (length (takeWhile (atom_matches a) s)))"

text \<open>
  \<open>regex_search p s i\<close> looks for the leftmost match in \<open>s\<close>, the part of the
  text from index \<open>i\<close> on, and gives its start and end indices.
  \<open>regex_exec p text lastIndex\<close> is \<open>regex.exec(text)\<close> of a regular expression
  whose \<open>lastIndex\<close> is given: a regular expression without the flag \<open>g\<close> always
  searches from 0, one with it searches from where its last match ended.
\<close>

fun regex_search :: "re_item list \<Rightarrow> string \<Rightarrow> nat \<Rightarrow> (nat \<times> nat) option" where
  "regex_search p [] i = map_option (\<lambda>n. (i, i + n)) (match_here p [])"
| "regex_search p (c # cs) i =
     (case match_here p (c # cs) of
        Some n \<Rightarrow> Some (i, i + n)
      | None \<Rightarrow> regex_search p cs (Suc i))"

definition regex_exec :: "re_item list \<Rightarrow> string \<Rightarrow> nat \<Rightarrow> (nat \<times> nat) option" where
  "regex_exec p fullText lastIndex =
     (if lastIndex > length fullText then None
      else regex_search p (drop lastIndex fullText) lastIndex)"

text \<open>
  The loop \<open>while ((match = regex.exec(fullText)) !== null) matches.push(match.index)\<close>
  of a regular expression with the flag \<open>g\<close>. Each round starts at the end of the
  last match. Nothing in the loop moves past a match of length zero, so the loop
  need not end: the result is \<open>None\<close> when it does not.
\<close>

partial_function (option) exec_loop :: "re_item list \<Rightarrow> string \<Rightarrow> nat \<Rightarrow> nat list \<Rightarrow> nat list option" where
  "exec_loop regex fullText lastIndex matches =
     (case regex_exec regex fullText lastIndex of
        None \<Rightarrow> Some matches
      | Some (index, lastIndex') \<Rightarrow> exec_loop regex fullText lastIndex' (matches @ [index]))"

declare exec_loop.simps [code]

section \<open>The chapter locator (pdfService: findChapterText)\<close>

text \<open>\<open>escapeRegExp\<close> puts a backslash before each of \<open>. * + ? ^ $ { } ( ) | [ ] \\<close>.\<close>

definition regexp_specials :: string where
  "regexp_specials = ''.*+?^${}()|[]'' @ [backslash]"

definition escapeRegExp :: "string \<Rightarrow> string" where
  "escapeRegExp s = concat (map (\<lambda>c. if c \<in> set regexp_specials then [backslash, c] else [c]) s)"

definition createFlexiblePattern :: "string \<Rightarrow> string" where
  "createFlexiblePattern t =
     (let cleanText = collapse_ws (trim t);
          escaped = escapeRegExp cleanText
      in join (backslash # ''s+'') (split_on CHR '' '' escaped))"

text \<open>
  The choice among the matches of a global search. An absent \<open>startIndex\<close> (the
  \<open>-1\<close> of the source) is \<open>None\<close>. The test \<open>matches[0] < fullText.length * 0.05\<close>
  compares an integer with a product that is exact up to one rounding: it holds
  exactly when \<open>20 * matches[0] < fullText.length\<close>.
\<close>

definition tocAvoidingStart :: "nat list \<Rightarrow> string \<Rightarrow> nat option" where
  "tocAvoidingStart matches fullText =
     (if length matches > 0 then
        (if length matches > 1 \<and> 20 * (matches ! 0) < length fullText
         then Some (matches ! 1)
         else Some (matches ! 0))
      else None)"

text \<open>First tier: all matches of the pattern of the whole title.\<close>

definition titleStart :: "string \<Rightarrow> string \<Rightarrow> nat option option" where
  "titleStart fullText chapterTitle =
     (let titlePattern = createFlexiblePattern chapterTitle;
          titleRegex = RegExp titlePattern
      in case exec_loop titleRegex fullText 0 [] of
           None \<Rightarrow> None
         | Some matches \<Rightarrow> Some (tocAvoidingStart matches fullText))"

text \<open>Fallback 1: the first eight pieces of \<open>chapterTitle.split(/\s+/)\<close>, first match.\<close>

definition shortTitleStart :: "string \<Rightarrow> string \<Rightarrow> nat option" where
  "shortTitleStart fullText chapterTitle =
     (let words = split_ws chapterTitle
      in if length words > 3 then
           (let shortTitle = join '' '' (take (min (length words) 8) words);
                shortPattern = createFlexiblePattern shortTitle;
                shortRegex = RegExp shortPattern
            in case regex_exec shortRegex fullText 0 of
                 Some (index, e) \<Rightarrow> Some index
               | None \<Rightarrow> None)
         else None)"

text \<open>
  \<open>chapterTitle.match(/^(Chapter\s+\d+|Part\s+\d+)/i)\<close>: the keyword in any case,
  then all the white space (at least one character), then all the digits (at least
  one), at the very start of the title. The result is the text matched.
\<close>

definition keywordNumber :: "string \<Rightarrow> string \<Rightarrow> string option" where
  "keywordNumber keyword s =
     (let k = length keyword;
          r = drop k s;
          ws = takeWhile is_space r;
          ds = takeWhile is_digit (dropWhile is_space r)
      in if map canonicalize (take k s) = map canonicalize keyword \<and> ws \<noteq> [] \<and> ds \<noteq> []
         then Some (take (k + length ws + length ds) s)
         else None)"

definition numberMatch :: "string \<Rightarrow> string option" where
  "numberMatch chapterTitle =
     (case keywordNumber ''Chapter'' chapterTitle of
        Some m \<Rightarrow> Some m
      | None \<Rightarrow> keywordNumber ''Part'' chapterTitle)"

text \<open>Fallback 2: all matches of the numbered prefix, with the same choice as the first tier.\<close>

definition numberStart :: "string \<Rightarrow> string \<Rightarrow> nat option option" where
  "numberStart fullText chapterTitle =
     (case numberMatch chapterTitle of
        None \<Rightarrow> Some None
      | Some matched \<Rightarrow>
          (let numPattern = createFlexiblePattern matched;
               numRegex = RegExp numPattern
           in case exec_loop numRegex fullText 0 [] of
                None \<Rightarrow> None
              | Some numMatches \<Rightarrow> Some (tocAvoidingStart numMatches fullText)))"

text \<open>
  The three tiers in the order of the source: each later one runs only while
  \<open>startIndex\<close> is still absent. The outer \<open>None\<close> is a search loop that does not
  end.
\<close>

definition findStartIndex :: "string \<Rightarrow> string \<Rightarrow> nat option option" where
  "findStartIndex fullText chapterTitle =
     (case titleStart fullText chapterTitle of
        None \<Rightarrow> None
      | Some startIndex \<Rightarrow>
          (let startIndex = (if startIndex = None then shortTitleStart fullText chapterTitle
                             else startIndex)
           in if startIndex = None then numberStart fullText chapterTitle
              else Some startIndex))"

text \<open>
  The end of the span. \<open>if (nextChapterTitle)\<close> holds for a title that is neither
  \<open>null\<close> nor the empty string.
\<close>

definition findEndIndex :: "string \<Rightarrow> string \<Rightarrow> string option \<Rightarrow> nat \<Rightarrow> nat" where
  "findEndIndex fullText chapterTitle nextChapterTitle startIndex =
     (case nextChapterTitle of
        None \<Rightarrow> length fullText
      | Some next \<Rightarrow>
          if next = [] then length fullText
          else
            (let nextPattern = createFlexiblePattern next;
                 nextRegex = RegExp nextPattern;
                 offset = startIndex + min (length chapterTitle) 50;
                 searchContext = string_slice fullText offset (length fullText)
             in case regex_exec nextRegex searchContext 0 of
                  Some (index, e) \<Rightarrow> offset + index
                | None \<Rightarrow> length fullText))"

definition CHAR_LIMIT :: nat where
  "CHAR_LIMIT = 1000000"

definition capped :: "string \<Rightarrow> string" where
  "capped extracted =
     (if length extracted > CHAR_LIMIT
      then string_slice extracted 0 CHAR_LIMIT @ ''... [Text truncated]''
      else extracted)"

text \<open>
  \<open>findChapterText\<close>: \<open>None\<close> when a search loop does not end, \<open>Some None\<close> for
  the \<open>null\<close> that signals failure to the caller, \<open>Some (Some text)\<close> for the text
  returned.
\<close>

definition findChapterText :: "string \<Rightarrow> string \<Rightarrow> string option \<Rightarrow> string option option" where
  "findChapterText fullText chapterTitle nextChapterTitle =
     (case findStartIndex fullText chapterTitle of
        None \<Rightarrow> None
      | Some None \<Rightarrow> Some None
      | Some (Some startIndex) \<Rightarrow>
          (let endIndex = findEndIndex fullText chapterTitle nextChapterTitle startIndex;
               extracted = string_slice fullText startIndex endIndex
           in Some (Some (trim (capped extracted)))))"

section \<open>The env analysis client (geminiService)\<close>

text \<open>
  A request to the env model is the name of the model and the parts of its
  content: inline document data with its MIME type, or text. The env service is
  a parameter of the model, \<open>generateContent\<close>: it throws or gives a response, of
  which the client reads the text and the inline data of the first part. The
  parsing of the JSON text of a chapter list is a parameter too.
\<close>

record Chapter =
  number :: string
  title :: string
  description :: string

datatype AnalysisType = STANDARD | DETAILED | INSIGHTS | CRITICAL

datatype Part = InlineData string string | TextPart string

datatype Request = GenerateContent string "Part list"

record Response =
  response_text :: "string option"
  response_inlineData :: "string option"

record Env =
  generateContent :: "Request \<Rightarrow> js_error + Response"
  JSON_parse :: "string \<Rightarrow> js_error + Chapter list"
  atob :: "string \<Rightarrow> nat list option"
  btoa :: "nat list \<Rightarrow> string"

definition MODEL_NAME :: string where
  "MODEL_NAME = ''gemini-2.0-flash-exp''"

definition requestParts :: "Request \<Rightarrow> Part list" where
  "requestParts r = (case r of GenerateContent m ps \<Rightarrow> ps)"

text \<open>The instructions of \<open>identifyChapters\<close>: for a document, for a text, and the one that ends both.\<close>

definition documentIdentifyPrompt :: string where
  "documentIdentifyPrompt =
     ''Analyze this PDF document. Look at the Table of Contents and the initial pages to identify the main chapters.''
     @ [nl] @ ''      If there is no explicit Table of Contents, scan the document structure to identify logical chapter divisions.''"

definition textIdentifyPrompt :: "string \<Rightarrow> string" where
  "textIdentifyPrompt textContext =
     ''Analyze the beginning of this book (Table of Contents and initial pages) and identify the main chapters.''
     @ [nl] @ ''      '' @ [nl] @ ''      Text Context:'' @ [nl] @ ''      '' @ textContext"

definition chapterListPrompt :: string where
  "chapterListPrompt =
     ''Return a list of chapters with their number, exact title found in the text, and a very brief description inferred from the title or context.''"

text \<open>
  \<open>identifyChapters(pdfText, pdfBase64?)\<close>. The document is sent when \<open>pdfBase64\<close>
  is given and not empty; otherwise the first 60000 characters of the text.
\<close>

definition identifyChapters ::
  "Env \<Rightarrow> string \<Rightarrow> string option \<Rightarrow> (js_error + Chapter list) \<times> Request list" where
  "identifyChapters env pdfText' pdfBase64' =
     (let parts =
            (if pdfBase64' \<noteq> None \<and> pdfBase64' \<noteq> Some [] then
               [InlineData ''application/pdf'' (the pdfBase64'), TextPart documentIdentifyPrompt]
             else
               (let textContext = string_slice pdfText' 0 60000
                in [TextPart (textIdentifyPrompt textContext)]))
            @ [TextPart chapterListPrompt];
          request = GenerateContent MODEL_NAME parts
      in (case generateContent env request of
            Inl e \<Rightarrow> Inl e
          | Inr response \<Rightarrow>
              (case response_text response of
                 None \<Rightarrow> Inl (Error ''No data returned from AI'')
               | Some t \<Rightarrow> if t = [] then Inl (Error ''No data returned from AI'')
                           else JSON_parse env t),
          [request]))"

definition specificPrompt :: "AnalysisType \<Rightarrow> string" where
  "specificPrompt type =
     (case type of
        DETAILED \<Rightarrow>
          ''Provide a detailed analysis including:'' @ [nl] @
          ''      1. Key Concepts & Main Ideas (Bullet points)'' @ [nl] @
          ''      2. Detailed Summary of arguments'' @ [nl] @
          ''      3. Significant Examples mentioned'' @ [nl] @
          ''      4. Core Conclusions''
      | INSIGHTS \<Rightarrow>
          ''Focus on insights and application:'' @ [nl] @
          ''      1. Key Insights (What is the hidden meaning?)'' @ [nl] @
          ''      2. Practical Applications (How can this be used?)'' @ [nl] @
          ''      3. Connections to other disciplines or modern context'' @ [nl] @
          ''      4. Thought-provoking quotes''
      | CRITICAL \<Rightarrow>
          ''Provide a critical review:'' @ [nl] @
          ''      1. Executive Summary'' @ [nl] @
          ''      2. Strengths of the argument'' @ [nl] @
          ''      3. Weaknesses or Logical Gaps'' @ [nl] @
          ''      4. Open Questions for further research''
      | STANDARD \<Rightarrow>
          ''Provide a standard, comprehensive summary of the chapter. Keep it clear, concise, and easy to read.'')"

text \<open>The two prompts of \<open>analyzeChapterContent\<close>: over the chapter's text, and over the whole document.\<close>

definition textPrompt :: "string \<Rightarrow> AnalysisType \<Rightarrow> string \<Rightarrow> string" where
  "textPrompt chapterTitle type chapterText =
     ''Analyze the content for Chapter: '' @ [dquote] @ chapterTitle @ [dquote] @ ''.'' @ [nl] @
     ''    '' @ [nl] @
     ''    '' @ specificPrompt type @ [nl] @
     ''    '' @ [nl] @
     ''    Text Content:'' @ [nl] @
     ''    '' @ chapterText"

definition documentPrompt :: "string \<Rightarrow> AnalysisType \<Rightarrow> string" where
  "documentPrompt chapterTitle type =
     ''I am providing the full PDF of the book. '' @ [nl] @
     ''    1. LOCATE the chapter titled '' @ [dquote] @ chapterTitle @ [dquote] @ ''.'' @ [nl] @
     ''    2. Read that chapter using your vision/OCR capabilities (ignoring other chapters).'' @ [nl] @
     ''    3. Perform the following analysis:'' @ [nl] @
     ''    '' @ [nl] @
     ''    '' @ specificPrompt type"

text \<open>
  The parts \<open>analyzeChapterContent\<close> builds before it calls the env model, or the
  error it throws instead. \<open>chapterText && chapterText.length > 100\<close> and
  \<open>else if (pdfBase64)\<close> are the tests of the source.
\<close>

definition analysisParts ::
  "string \<Rightarrow> string option \<Rightarrow> AnalysisType \<Rightarrow> string option \<Rightarrow> js_error + Part list" where
  "analysisParts chapterTitle chapterText type pdfBase64' =
     (if chapterText \<noteq> None \<and> chapterText \<noteq> Some [] \<and> length (the chapterText) > 100 then
        Inr [TextPart (textPrompt chapterTitle type (the chapterText))]
      else if pdfBase64' \<noteq> None \<and> pdfBase64' \<noteq> Some [] then
        Inr [InlineData ''application/pdf'' (the pdfBase64'),
             TextPart (documentPrompt chapterTitle type)]
      else Inl (Error ''Insufficient content to analyze. Neither text nor PDF data provided.''))"

definition analyzeChapterContent ::
  "Env \<Rightarrow> string \<Rightarrow> string option \<Rightarrow> AnalysisType \<Rightarrow> string option
     \<Rightarrow> (js_error + string) \<times> Request list" where
  "analyzeChapterContent env chapterTitle chapterText type pdfBase64' =
     (case analysisParts chapterTitle chapterText type pdfBase64' of
        Inl e \<Rightarrow> (Inl e, [])
      | Inr parts \<Rightarrow>
          (let request = GenerateContent MODEL_NAME parts
           in (case generateContent env request of
                 Inl e \<Rightarrow> Inl e
               | Inr response \<Rightarrow>
                   (case response_text response of
                      None \<Rightarrow> Inr ''Could not generate summary.''
                    | Some t \<Rightarrow> if t = [] then Inr ''Could not generate summary.'' else Inr t),
               [request])))"

section \<open>Speech synthesis in chunks (geminiService: generateSpeech)\<close>

type_synonym byte = "8 word"
type_synonym int16 = "16 word"

text \<open>
  \<open>prepareTextForSpeech\<close> is a chain of seven global replacements. Each is a scan
  from left to right that rewrites the leftmost match and goes on behind it.
\<close>

text \<open>\<open>.replace(/\*\*/g, '')\<close>\<close>

fun remove_bold :: "string \<Rightarrow> string" where
  "remove_bold (a # b # r) =
     (if a = CHR ''*'' \<and> b = CHR ''*'' then remove_bold r else a # remove_bold (b # r))"
| "remove_bold r = r"






























section \<open>The audio helpers of the analysis view (AnalysisView)\<close>


text \<open>
  \<open>new Int16Array(buffer)\<close> throws a RangeError when the byte length is odd.
  Otherwise element \<open>i\<close> is read from the bytes \<open>2i\<close> and \<open>2i+1\<close>, low byte first
  (typed arrays use the byte order of the platform; the platforms the browsers run
  on are little-endian).
\<close>

definition Int16Array :: "byte list \<Rightarrow> js_error + int16 list" where
  "Int16Array buffer =
     (if length buffer mod 2 \<noteq> 0 then Inl RangeError
      else Inr (map (\<lambda>i. word_cat (buffer ! (2 * i + 1)) (buffer ! (2 * i)))
                    [0..<length buffer div 2]))"

text \<open>
  The audio buffer that \<open>ctx.createBuffer(numChannels, frameCount, sampleRate)\<close>
  allocates and the loops fill. The audio context belongs to the browser; the
  model takes the allocation to give the shape asked for. A sample \<open>s / 32768.0\<close>
  with \<open>|s| \<le> 2^15\<close> is a multiple of \<open>2^-15\<close> with at most 16 significant bits,
  so the 32-bit float stored is the exact quotient, and division in \<open>real\<close>
  models it.
\<close>

record AudioBuffer =
  sampleRate :: nat
  numberOfChannels :: nat
  channelData :: "real list list"

definition decodeAudioData :: "byte list \<Rightarrow> js_error + AudioBuffer" where
  "decodeAudioData data =
     (let sampleRate' = 24000;
          numChannels = 1
      in case Int16Array data of
           Inl e \<Rightarrow> Inl e
         | Inr dataInt16 \<Rightarrow>
             (let frameCount = length dataInt16 div numChannels
              in Inr \<lparr> sampleRate = sampleRate',
                       numberOfChannels = numChannels,
                       channelData =
                         map (\<lambda>channel.
                                map (\<lambda>i. real_of_int (sint (dataInt16 ! (i * numChannels + channel))) / 32768)
                                    [0..<frameCount])
                             [0..<numChannels] \<rparr>))"

text \<open>
  The reading the specification gives two bytes: 16 bits, little-endian, two's
  complement.
\<close>

definition le_int16 :: "byte \<Rightarrow> byte \<Rightarrow> int" where
  "le_int16 lo hi =
     (let u = int (unat lo) + 256 * int (unat hi)
      in if u < 32768 then u else u - 65536)"

text \<open>
  The browser's \<open>atob\<close> follows the forgiving-base64 decoding of the WHATWG Infra
  standard: ASCII white space is dropped, up to two padding signs are dropped from
  a length that is a multiple of four, a length of the form \<open>4k+1\<close> or a character
  outside the alphabet fails, and every four characters give three bytes. It is the
  \<open>atob\<close> of the environment the examples run in.
\<close>

definition b64_value :: "char \<Rightarrow> nat option" where
  "b64_value c =
     (let n = (of_char c :: nat)
      in if 65 \<le> n \<and> n \<le> 90 then Some (n - 65)
         else if 97 \<le> n \<and> n \<le> 122 then Some (n - 71)
         else if 48 \<le> n \<and> n \<le> 57 then Some (n + 4)
         else if n = 43 then Some 62
         else if n = 47 then Some 63
         else None)"

fun b64_groups :: "nat list \<Rightarrow> nat list" where
  "b64_groups (a # b # c # d # r) =
     (a * 4 + b div 16) # ((b mod 16) * 16 + c div 4) # ((c mod 4) * 64 + d) # b64_groups r"
| "b64_groups [a, b, c] = [a * 4 + b div 16, (b mod 16) * 16 + c div 4]"
| "b64_groups [a, b] = [a * 4 + b div 16]"
| "b64_groups r = []"

definition forgiving_base64_decode :: "string \<Rightarrow> nat list option" where
  "forgiving_base64_decode s =
     (let d = filter (\<lambda>c. (of_char c :: nat) \<notin> {9, 10, 12, 13, 32}) s;
          d = (if length d mod 4 = 0
               then (if 2 \<le> length d \<and> drop (length d - 2) d = ''==''
                     then take (length d - 2) d
                     else if 1 \<le> length d \<and> drop (length d - 1) d = ''=''
                     then take (length d - 1) d
                     else d)
               else d)
      in if length d mod 4 = 1 then None
         else if list_ex (\<lambda>c. b64_value c = None) d then None
         else Some (b64_groups (map (\<lambda>c. the (b64_value c)) d)))"

section \<open>Sessions and views (App, the library variant)\<close>

datatype AppStep = Step_upload | Step_processing | Step_chapters | Step_analysis

record BookSession =
  bs_id :: string
  bs_fileName :: string
  bs_uploadTimestamp :: nat
  bs_chapters :: "Chapter list"
  bs_pdfText :: string
  bs_pdfBase64 :: string
  bs_isScannedMode :: bool

text \<open>The state of the component \<open>App\<close>: one field for each \<open>useState\<close>.\<close>

record App =
  sessions :: "BookSession list"
  activeSessionId :: "string option"
  isLibraryOpen :: bool
  step :: AppStep
  pdfText :: string
  pdfBase64 :: string
  isScannedMode :: bool
  chapters :: "Chapter list"
  selectedChapter :: "Chapter option"
  currentAnalysis :: string
  currentAnalysisType :: AnalysisType
  loading :: bool
  error :: string

text \<open>
  An uploaded file, as the page sees it: its name, what \<open>convertFileToBase64\<close>
  resolves to, and what the PDF library reads from it, a list of pages, each the
  strings of its text items or \<open>None\<close> where reading the page throws.
\<close>

record PdfFile =
  file_name :: string
  file_base64 :: "js_error + string"
  file_pages :: "js_error + string list option list"

fun show_nat :: "nat \<Rightarrow> string" where
  "show_nat n =
     (if n < 10 then [char_of (48 + n)]
      else show_nat (n div 10) @ [char_of (48 + n mod 10)])"

text \<open>
  \<open>extractTextFromPDF\<close>, the loop over the pages: its state is \<open>fullText\<close> and
  \<open>totalContentLength\<close>; the page number runs from 1. The test
  \<open>totalContentLength / numPages < 50\<close> is \<open>totalContentLength < 50 * numPages\<close>.
\<close>

fun extractPages :: "nat \<Rightarrow> string list option list \<Rightarrow> string \<times> nat \<Rightarrow> string \<times> nat" where
  "extractPages i [] state = state"
| "extractPages i (page # rest) (fullText, totalContentLength) =
     (case page of
        None \<Rightarrow> extractPages (Suc i) rest (fullText, totalContentLength)
      | Some items \<Rightarrow>
          (let pageText = join '' '' items
           in if length (trim pageText) > 0
              then extractPages (Suc i) rest
                     (fullText @ ''--- Page '' @ show_nat i @ '' ---'' @ [nl] @ pageText @ [nl, nl],
                      totalContentLength + length (trim pageText))
              else extractPages (Suc i) rest (fullText, totalContentLength)))"

definition extractTextFromPDF :: "PdfFile \<Rightarrow> js_error + string \<times> bool" where
  "extractTextFromPDF file =
     (case file_pages file of
        Inl e \<Rightarrow> Inl e
      | Inr pages \<Rightarrow>
          (let numPages = length pages
           in case extractPages 1 pages ([], 0) of
                (fullText, totalContentLength) \<Rightarrow>
                  (let isScanned = (numPages > 0 \<and> totalContentLength < 50 * numPages)
                   in Inr (trim fullText, isScanned))))"

definition errorMessage :: "js_error \<Rightarrow> string" where
  "errorMessage e =
     (case e of
        Error m \<Rightarrow> m
      | InvalidCharacterError \<Rightarrow> ''InvalidCharacterError''
      | RangeError \<Rightarrow> ''RangeError'')"

definition loadSession :: "BookSession \<Rightarrow> App \<Rightarrow> App" where
  "loadSession session s =
     s \<lparr> activeSessionId := Some (bs_id session),
         pdfText := bs_pdfText session,
         pdfBase64 := bs_pdfBase64 session,
         isScannedMode := bs_isScannedMode session,
         chapters := bs_chapters session,
         selectedChapter := None,
         currentAnalysis := [],
         step := Step_chapters,
         error := [],
         loading := False,
         isLibraryOpen := False \<rparr>"

text \<open>
  \<open>handleFileSelect\<close>. \<open>now\<close> is the value of \<open>Date.now()\<close>. The catch block sets
  the message of the error, or the default when the message is empty.
\<close>

definition uploadFailed :: "js_error \<Rightarrow> App \<Rightarrow> App" where
  "uploadFailed e s =
     s \<lparr> error := (if errorMessage e = [] then ''Failed to process the book.'' else errorMessage e),
         loading := False \<rparr>"

definition handleFileSelect :: "Env \<Rightarrow> nat \<Rightarrow> PdfFile \<Rightarrow> App \<Rightarrow> App \<times> Request list" where
  "handleFileSelect env now file s0 =
     (let s1 = s0 \<lparr> loading := True, error := [], isScannedMode := False \<rparr>
      in case file_base64 file of
           Inl e \<Rightarrow> (uploadFailed e s1, [])
         | Inr base64 \<Rightarrow>
             (let s2 = s1 \<lparr> pdfBase64 := base64 \<rparr>
              in case extractTextFromPDF file of
                   Inl e \<Rightarrow> (uploadFailed e s2, [])
                 | Inr (text', isScanned) \<Rightarrow>
                     (let s3 = s2 \<lparr> pdfText := text' \<rparr>;
                          finalIsScanned = (if isScanned then True
                                            else if length text' < 500 then True
                                            else isScanned);
                          s4 = s3 \<lparr> isScannedMode := finalIsScanned \<rparr>
                      in case identifyChapters env
                                (if finalIsScanned then [] else text')
                                (if finalIsScanned then Some base64 else None) of
                           (Inl e, requests) \<Rightarrow> (uploadFailed e s4, requests)
                         | (Inr identifiedChapters, requests) \<Rightarrow>
                             if length identifiedChapters = 0
                             then (uploadFailed (Error ''Could not identify chapters. Try a different book.'') s4,
                                   requests)
                             else
                               (let newSession =
                                      \<lparr> bs_id = show_nat now,
                                        bs_fileName = file_name file,
                                        bs_uploadTimestamp = now,
                                        bs_chapters = identifiedChapters,
                                        bs_pdfText = text',
                                        bs_pdfBase64 = base64,
                                        bs_isScannedMode = finalIsScanned \<rparr>
                                in (loadSession newSession (s4 \<lparr> sessions := newSession # sessions s4 \<rparr>),
                                    requests)))))"

text \<open>
  \<open>handleFileSelect\<close> is asynchronous: a call runs up to an \<open>await\<close> and goes
  on when the promise is settled, and between the two the page handles other
  events. The handler reads no state of the component, it only writes it
  (\<open>setSessions\<close> is given a function of the value it finds), so what is left of
  a call is a function of the state the page has when the call goes on. \<open>Upload\<close>
  is what is left of a call: it waits for the bytes of the file, for the extracted
  text, or for the chapters, with what it has computed so far, or it has ended.
  \<open>handleFileSelect_begin\<close> is the call up to its first \<open>await\<close>, and
  \<open>resumeUpload\<close> takes a call from one \<open>await\<close> to the next. The request for
  the chapters is made when \<open>identifyChapters\<close> is called, its answer is read when
  the call goes on.
\<close>

datatype Upload =
    AwaitBase64 PdfFile
  | AwaitText PdfFile string
  | AwaitChapters PdfFile string string bool
  | Settled

definition handleFileSelect_begin :: "PdfFile \<Rightarrow> App \<Rightarrow> App \<times> Upload" where
  "handleFileSelect_begin file s0 =
     (s0 \<lparr> loading := True, error := [], isScannedMode := False \<rparr>, AwaitBase64 file)"

fun resumeUpload :: "Env \<Rightarrow> nat \<Rightarrow> Upload \<Rightarrow> App \<Rightarrow> (App \<times> Upload) \<times> Request list" where
  "resumeUpload env now (AwaitBase64 file) s =
     (case file_base64 file of
        Inl e \<Rightarrow> ((uploadFailed e s, Settled), [])
      | Inr base64 \<Rightarrow> ((s \<lparr> pdfBase64 := base64 \<rparr>, AwaitText file base64), []))"
| "resumeUpload env now (AwaitText file base64) s =
     (case extractTextFromPDF file of
        Inl e \<Rightarrow> ((uploadFailed e s, Settled), [])
      | Inr (text', isScanned) \<Rightarrow>
          (let s3 = s \<lparr> pdfText := text' \<rparr>;
               finalIsScanned = (if isScanned then True
                                 else if length text' < 500 then True
                                 else isScanned);
               s4 = s3 \<lparr> isScannedMode := finalIsScanned \<rparr>
           in ((s4, AwaitChapters file base64 text' finalIsScanned),
               snd (identifyChapters env
                      (if finalIsScanned then [] else text')
                      (if finalIsScanned then Some base64 else None)))))"
| "resumeUpload env now (AwaitChapters file base64 text' finalIsScanned) s =
     (case fst (identifyChapters env
                  (if finalIsScanned then [] else text')
                  (if finalIsScanned then Some base64 else None)) of
        Inl e \<Rightarrow> ((uploadFailed e s, Settled), [])
      | Inr identifiedChapters \<Rightarrow>
          if length identifiedChapters = 0
          then ((uploadFailed (Error ''Could not identify chapters. Try a different book.'') s, Settled), [])
          else
            (let newSession =
                   \<lparr> bs_id = show_nat now,
                     bs_fileName = file_name file,
                     bs_uploadTimestamp = now,
                     bs_chapters = identifiedChapters,
                     bs_pdfText = text',
                     bs_pdfBase64 = base64,
                     bs_isScannedMode = finalIsScanned \<rparr>
             in ((loadSession newSession (s \<lparr> sessions := newSession # sessions s \<rparr>), Settled), [])))"
| "resumeUpload env now Settled s = ((s, Settled), [])"

definition handleSwitchSession :: "string \<Rightarrow> App \<Rightarrow> App" where
  "handleSwitchSession sessionId s =
     (case find (\<lambda>x. bs_id x = sessionId) (sessions s) of
        Some session \<Rightarrow> loadSession session s
      | None \<Rightarrow> s)"

definition handleUploadNew :: "App \<Rightarrow> App" where
  "handleUploadNew s =
     s \<lparr> step := Step_upload,
         error := [],
         activeSessionId := None,
         selectedChapter := None \<rparr>"

definition removeSession :: "string \<Rightarrow> App \<Rightarrow> App" where
  "removeSession sessionId s =
     (let newSessions = filter (\<lambda>x. bs_id x \<noteq> sessionId) (sessions s);
          s1 = s \<lparr> sessions := newSessions \<rparr>
      in if Some sessionId = activeSessionId s then
           (if length newSessions > 0 then loadSession (newSessions ! 0) s1
            else handleUploadNew s1)
         else s1)"

text \<open>
  The click on the logo of the navigation bar, which is shown at every step:
  \<open>sessions.length > 0 ? loadSession(sessions[0]) : handleUploadNew()\<close>.
\<close>

definition handleLogoClick :: "App \<Rightarrow> App" where
  "handleLogoClick s =
     (if length (sessions s) > 0 then loadSession (sessions s ! 0) s else handleUploadNew s)"

text \<open>\<open>xs.findIndex(p)\<close>, with \<open>None\<close> for \<open>-1\<close>.\<close>

fun findIndex :: "('a \<Rightarrow> bool) \<Rightarrow> 'a list \<Rightarrow> nat option" where
  "findIndex p [] = None"
| "findIndex p (x # xs) = (if p x then Some 0 else map_option Suc (findIndex p xs))"

text \<open>
  \<open>handleChapterAnalysis\<close>. The result is \<open>None\<close> when the search loop of the
  locator does not end. The catch block sets the error and goes back to the list
  of chapters; the finally block ends the loading in either case.
\<close>

definition nextChapterOf :: "Chapter list \<Rightarrow> Chapter \<Rightarrow> Chapter option" where
  "nextChapterOf cs chapter =
     (case findIndex (\<lambda>c. number c = number chapter \<and> title c = title chapter) cs of
        Some currentIndex \<Rightarrow>
          if currentIndex < length cs - 1 then Some (cs ! (currentIndex + 1)) else None
      | None \<Rightarrow> None)"

definition chapterContentFor :: "App \<Rightarrow> Chapter \<Rightarrow> string option option" where
  "chapterContentFor s chapter =
     (if \<not> isScannedMode s then
        (let nextChapter = nextChapterOf (chapters s) chapter
         in case findChapterText (pdfText s) (title chapter) (map_option title nextChapter) of
              None \<Rightarrow> None
            | Some chapterContent \<Rightarrow>
                if chapterContent = None \<or> chapterContent = Some [] \<or> length (the chapterContent) < 200
                then Some None
                else Some chapterContent)
      else Some None)"

definition handleChapterAnalysis :: "Env \<Rightarrow> Chapter \<Rightarrow> AnalysisType \<Rightarrow> App \<Rightarrow> (App \<times> Request list) option" where
  "handleChapterAnalysis env chapter type s0 =
     (let s1 = s0 \<lparr> selectedChapter := Some chapter,
                    currentAnalysisType := type,
                    step := Step_analysis,
                    loading := True,
                    currentAnalysis := [] \<rparr>
      in case chapterContentFor s0 chapter of
           None \<Rightarrow> None
         | Some chapterContent \<Rightarrow>
             (case analyzeChapterContent env (title chapter) chapterContent type (Some (pdfBase64 s0)) of
                (Inr result, requests) \<Rightarrow>
                  Some (s1 \<lparr> currentAnalysis := result, loading := False \<rparr>, requests)
              | (Inl e, requests) \<Rightarrow>
                  Some (s1 \<lparr> error := ''Failed to generate analysis.'',
                             step := Step_chapters,
                             loading := False \<rparr>, requests)))"

text \<open>
  A view shows a session when it carries the session's id, text, document, mode
  and chapters. \<open>decidedState\<close> is the state of an upload after the mode is
  decided, \<open>uploadedSession\<close> the session an upload creates.
\<close>

definition shows_session :: "App \<Rightarrow> BookSession \<Rightarrow> bool" where
  "shows_session s x =
     (activeSessionId s = Some (bs_id x) \<and> pdfText s = bs_pdfText x \<and> pdfBase64 s = bs_pdfBase64 x
      \<and> isScannedMode s = bs_isScannedMode x \<and> chapters s = bs_chapters x)"

definition decidedState :: "App \<Rightarrow> string \<Rightarrow> string \<Rightarrow> bool \<Rightarrow> App" where
  "decidedState s base64 t final =
     s \<lparr> loading := True, error := [], isScannedMode := False, pdfBase64 := base64,
         pdfText := t, isScannedMode := final \<rparr>"

definition uploadedSession :: "nat \<Rightarrow> PdfFile \<Rightarrow> Chapter list \<Rightarrow> string \<Rightarrow> string \<Rightarrow> bool \<Rightarrow> BookSession" where
  "uploadedSession now f cs base64 t final =
     \<lparr> bs_id = show_nat now, bs_fileName = file_name f, bs_uploadTimestamp = now,
       bs_chapters = cs, bs_pdfText = t, bs_pdfBase64 = base64, bs_isScannedMode = final \<rparr>"

text \<open>The state before the first upload.\<close>

definition initialApp :: App where
  "initialApp =
     \<lparr> sessions = [],
       activeSessionId = None,
       isLibraryOpen = False,
       step = Step_upload,
       pdfText = [],
       pdfBase64 = [],
       isScannedMode = False,
       chapters = [],
       selectedChapter = None,
       currentAnalysis = [],
       currentAnalysisType = STANDARD,
       loading = False,
       error = [] \<rparr>"
section \<open>An environment and states for the examples\<close>

text \<open>
  The \<open>btoa\<close> of the examples: base64 with padding, three bytes to four characters.
\<close>

definition b64_char :: "nat \<Rightarrow> char" where
  "b64_char n = (''ABCDEFGHIJKLMNOPQRSTUVWXYZabcdefghijklmnopqrstuvwxyz0123456789+/'' ! n)"

fun base64_encode :: "nat list \<Rightarrow> string" where
  "base64_encode (a # b # c # r) =
     [b64_char (a div 4), b64_char ((a mod 4) * 16 + b div 16),
      b64_char ((b mod 16) * 4 + c div 64), b64_char (c mod 64)] @ base64_encode r"
| "base64_encode [a, b] =
     [b64_char (a div 4), b64_char ((a mod 4) * 16 + b div 16), b64_char ((b mod 16) * 4), CHR ''='']"
| "base64_encode [a] = [b64_char (a div 4), b64_char ((a mod 4) * 16), CHR ''='', CHR ''='']"
| "base64_encode [] = []"

definition exampleChapters :: "Chapter list" where
  "exampleChapters =
     [\<lparr> number = ''1'', title = ''Alpha'', description = ''first'' \<rparr>,
      \<lparr> number = ''2'', title = ''Beta'', description = ''second'' \<rparr>]"

text \<open>
  A remote service that answers every request with the text \<open>ok\<close> and the three
  bytes 0, 1, 2 as audio data, and a parser that reads the two chapters above.
\<close>

definition exampleEnv :: Env where
  "exampleEnv =
     \<lparr> generateContent = (\<lambda>r. Inr \<lparr> response_text = Some ''ok'', response_inlineData = Some ''AAEC'' \<rparr>),
       JSON_parse = (\<lambda>t. Inr exampleChapters),
       atob = forgiving_base64_decode,
       btoa = base64_encode \<rparr>"

definition exampleSession :: "string \<Rightarrow> bool \<Rightarrow> BookSession" where
  "exampleSession i scanned =
     \<lparr> bs_id = i,
       bs_fileName = ''book'' @ i @ ''.pdf'',
       bs_uploadTimestamp = 0,
       bs_chapters = exampleChapters,
       bs_pdfText = ''Alpha is short. Beta too.'',
       bs_pdfBase64 = ''JVBERi0='',
       bs_isScannedMode = scanned \<rparr>"

text \<open>A library of two books, the newer one (\<open>2\<close>) first and active.\<close>

definition exampleLibrary :: App where
  "exampleLibrary =
     loadSession (exampleSession ''2'' True)
       (initialApp \<lparr> sessions := [exampleSession ''2'' True, exampleSession ''1'' False] \<rparr>)"

text \<open>A scanned book: ten pages, none of which gives any text.\<close>

definition scannedFile :: PdfFile where
  "scannedFile =
     \<lparr> file_name = ''scan.pdf'',
       file_base64 = Inr ''JVBERi0='',
       file_pages = Inr (replicate 10 (Some [])) \<rparr>"

text \<open>A book in text mode, open at its list of chapters.\<close>

definition exampleTextApp :: App where
  "exampleTextApp =
     loadSession (exampleSession ''1'' False)
       (initialApp \<lparr> sessions := [exampleSession ''1'' False] \<rparr>)"



text \<open>
  A book with text: one page, whose text is the word \<open>Alpha\<close> and 500 letters.
\<close>

definition textFile :: PdfFile where
  "textFile =
     \<lparr> file_name = ''text.pdf'',
       file_base64 = Inr ''JVBERi1G'',
       file_pages = Inr [Some [''Alpha'', replicate 500 CHR ''x'']] \<rparr>"

text \<open>
  A run of the page. The scanned book is uploaded and shown; \<open>Add New Book\<close>
  opens the upload form; the book with text is chosen there; while its bytes are
  read the logo is clicked, which loads the scanned book again; then the bytes and
  the text of the book with text arrive. \<open>staleUploadView\<close> is the state of the
  page at that moment, the request for the chapters of the new book still pending.
\<close>

definition scannedView :: App where
  "scannedView = fst (handleFileSelect exampleEnv 1700 scannedFile initialApp)"

definition staleUploadStart :: App where
  "staleUploadStart =
     handleLogoClick (fst (handleFileSelect_begin textFile (handleUploadNew scannedView)))"

definition staleUploadView :: App where
  "staleUploadView =
     (let read = fst (resumeUpload exampleEnv 1800 (AwaitBase64 textFile) staleUploadStart)
      in fst (fst (resumeUpload exampleEnv 1800 (snd read) (fst read))))"
chapter \<open>BookMind: the properties\<close>

section \<open>Raw PCM decoding\<close>

lemma uint_byte_bounds: "0 \<le> uint (b::byte) \<and> uint b < 256"
  using uint_bounded [of b] by simp

lemma uint_cat: "uint (word_cat (hi::byte) (lo::byte) :: int16) = uint hi * 256 + uint lo"
proof -
  have lo: "0 \<le> uint lo" "uint lo < 256" and hi: "0 \<le> uint hi" "uint hi < 256"
    using uint_byte_bounds by auto
  have t: "take_bit 8 (uint lo) = uint lo"
    using lo by (simp add: take_bit_int_eq_self)
  have c: "concat_bit 8 (uint lo) (uint hi) = uint lo + 256 * uint hi"
    unfolding concat_bit_eq t by (simp add: push_bit_eq_mult)
  have s: "take_bit 16 (uint lo + 256 * uint hi) = uint lo + 256 * uint hi"
    using lo hi by (intro take_bit_int_eq_self) auto
  have "uint (word_cat hi lo :: int16) = take_bit 16 (concat_bit 8 (uint lo) (uint hi))"
    unfolding word_cat_eq' uint_word_of_int_eq by simp
  then show ?thesis
    unfolding c s by simp
qed

lemma sint_int16: "sint (w :: int16) = (if uint w < 32768 then uint w else uint w - 65536)"
proof -
  have b: "0 \<le> uint w" "uint w < 65536" using uint_bounded [of w] by auto
  have d: "uint w div 32768 = (if uint w < 32768 then 0 else 1)"
    using b by auto
  have "bit (uint w) 15 \<longleftrightarrow> 32768 \<le> uint w"
    unfolding bit_iff_odd using d by simp
  moreover have "take_bit 16 (uint w) = uint w"
    using b by (intro take_bit_int_eq_self) auto
  moreover have "sint w = signed_take_bit 15 (uint w)"
    by (simp add: sint_uint)
  ultimately show ?thesis
    by (simp add: signed_take_bit_eq_take_bit_minus)
qed

lemma sint_cat: "sint (word_cat hi lo :: int16) = le_int16 lo hi"
  unfolding sint_int16 uint_cat le_int16_def Let_def by (simp add: ac_simps)

lemma signed_cat: "(signed (word_cat hi lo :: int16) :: real) = real_of_int (le_int16 lo hi)"
  by (metis of_int_sint sint_cat)

lemma le_int16_range: "- 32768 \<le> le_int16 lo hi \<and> le_int16 lo hi \<le> 32767"
proof -
  define u where "u = int (unat lo) + 256 * int (unat hi)"
  have "0 \<le> u" by (simp add: u_def)
  moreover have "u < 65536"
    using uint_byte_bounds [of lo] uint_byte_bounds [of hi] by (simp add: u_def)
  moreover have "le_int16 lo hi = (if u < 32768 then u else u - 65536)"
    by (simp add: le_int16_def u_def Let_def)
  ultimately show ?thesis by auto
qed

lemma Int16Array_even:
  "even (length data) \<Longrightarrow>
   Int16Array data =
     Inr (map (\<lambda>i. word_cat (data ! (2 * i + 1)) (data ! (2 * i))) [0..<length data div 2])"
  by (simp add: Int16Array_def even_iff_mod_2_eq_zero)

lemma Int16Array_odd: "odd (length data) \<Longrightarrow> Int16Array data = Inl RangeError"
  by (simp add: Int16Array_def odd_iff_mod_2_eq_one)

lemma decodeAudioData_even:
  assumes "even (length data)"
  shows "decodeAudioData data =
           Inr \<lparr> sampleRate = 24000, numberOfChannels = 1,
                 channelData =
                   [map (\<lambda>i. real_of_int (le_int16 (data ! (2 * i)) (data ! (2 * i + 1))) / 32768)
                        [0..<length data div 2]] \<rparr>"
  by (simp add: decodeAudioData_def Int16Array_even [OF assms] signed_cat)

text \<open>
  Claim C8. \<open>decodeAudioData\<close> reads its bytes as 16-bit little-endian signed
  samples, one channel at 24000 Hz: for an input of even length, output sample \<open>i\<close>
  is the signed little-endian value of the bytes \<open>2i\<close> and \<open>2i+1\<close> divided by
  32768, and lies between -1 and 1.
\<close>

theorem decodeAudioData_pcm16:
  assumes "even (length data)"
  shows "\<exists>ch. decodeAudioData data =
              Inr \<lparr> sampleRate = 24000, numberOfChannels = 1, channelData = [ch] \<rparr>
          \<and> length ch = length data div 2
          \<and> (\<forall>i < length data div 2.
                 ch ! i = real_of_int (le_int16 (data ! (2 * i)) (data ! (2 * i + 1))) / 32768
               \<and> - 1 \<le> ch ! i \<and> ch ! i \<le> 1)"
proof -
  let ?ch = "map (\<lambda>i. real_of_int (le_int16 (data ! (2 * i)) (data ! (2 * i + 1))) / 32768)
                 [0..<length data div 2]"
  have "decodeAudioData data =
          Inr \<lparr> sampleRate = 24000, numberOfChannels = 1, channelData = [?ch] \<rparr>"
    by (rule decodeAudioData_even [OF assms])
  moreover have "length ?ch = length data div 2" by simp
  moreover have "\<forall>i < length data div 2.
                 ?ch ! i = real_of_int (le_int16 (data ! (2 * i)) (data ! (2 * i + 1))) / 32768
               \<and> - 1 \<le> ?ch ! i \<and> ?ch ! i \<le> 1"
  proof (intro allI impI)
    fix i assume i: "i < length data div 2"
    let ?s = "le_int16 (data ! (2 * i)) (data ! (2 * i + 1))"
    have "- 32768 \<le> real_of_int ?s" "real_of_int ?s \<le> 32767"
      using le_int16_range [of "data ! (2 * i)" "data ! (2 * i + 1)"] by linarith+
    then show "?ch ! i = real_of_int ?s / 32768 \<and> - 1 \<le> ?ch ! i \<and> ?ch ! i \<le> 1"
      using i by simp
  qed
  ultimately show ?thesis by blast
qed

theorem decodeAudioData_pcm16_witness:
  "even (length [0, 128, 255, 127 :: byte]) \<and>
   decodeAudioData [0, 128, 255, 127] =
     Inr \<lparr> sampleRate = 24000, numberOfChannels = 1, channelData = [[- 1, 32767 / 32768]] \<rparr>"
proof -
  have e: "even (length [0, 128, 255, 127 :: byte])" by simp
  from decodeAudioData_pcm16 [OF e] obtain ch where
    d: "decodeAudioData [0, 128, 255, 127] =
          Inr \<lparr> sampleRate = 24000, numberOfChannels = 1, channelData = [ch] \<rparr>"
    and l: "length ch = 2"
    and s: "\<forall>i<2. ch ! i = real_of_int (le_int16 ([0, 128, 255, 127] ! (2 * i)) ([0, 128, 255, 127] ! (2 * i + 1))) / 32768"
    by auto
  have "ch ! 0 = - 1" using s [rule_format, of 0] by (simp add: le_int16_def)
  moreover have "ch ! 1 = 32767 / 32768" using s [rule_format, of 1] by (simp add: le_int16_def)
  ultimately have "ch = [- 1, 32767 / 32768]"
    using l by (cases ch; cases "tl ch") auto
  with d e show ?thesis by simp
qed





section \<open>Removing a session\<close>

lemma hd_filter_in: "filter P xs \<noteq> [] \<Longrightarrow> P (hd (filter P xs)) \<and> hd (filter P xs) \<in> set xs"
  by (metis (mono_tags, lifting) hd_in_set mem_Collect_eq set_filter)

text \<open>
  Claim C9. \<open>removeSession\<close> keeps the other sessions in their order. When the
  session removed is the active one, the first of the remaining sessions is loaded
  and becomes active, or, when none remains, the application goes to the upload
  screen with no active session. When the session removed is not the active one,
  nothing but the collection changes.
\<close>

theorem removeSession_fallback:
  "(let remaining = filter (\<lambda>x. bs_id x \<noteq> sessionId) (sessions s);
        s' = removeSession sessionId s
    in sessions s' = remaining
     \<and> (activeSessionId s = Some sessionId \<and> remaining \<noteq> [] \<longrightarrow>
          s' = loadSession (hd remaining) (s \<lparr> sessions := remaining \<rparr>)
        \<and> activeSessionId s' = Some (bs_id (hd remaining))
        \<and> bs_id (hd remaining) \<noteq> sessionId
        \<and> hd remaining \<in> set (sessions s)
        \<and> step s' = Step_chapters
        \<and> chapters s' = bs_chapters (hd remaining)
        \<and> pdfText s' = bs_pdfText (hd remaining)
        \<and> pdfBase64 s' = bs_pdfBase64 (hd remaining)
        \<and> isScannedMode s' = bs_isScannedMode (hd remaining)
        \<and> selectedChapter s' = None)
     \<and> (activeSessionId s = Some sessionId \<and> remaining = [] \<longrightarrow>
          step s' = Step_upload \<and> activeSessionId s' = None \<and> selectedChapter s' = None)
     \<and> (activeSessionId s \<noteq> Some sessionId \<longrightarrow>
          s' = s \<lparr> sessions := remaining \<rparr> \<and> activeSessionId s' = activeSessionId s))"
proof -
  let ?rem = "filter (\<lambda>x. bs_id x \<noteq> sessionId) (sessions s)"
  have a: "?rem \<noteq> [] \<Longrightarrow> bs_id (hd ?rem) \<noteq> sessionId \<and> hd ?rem \<in> set (sessions s)"
    using hd_filter_in [of "\<lambda>x. bs_id x \<noteq> sessionId" "sessions s"] by simp
  have n: "?rem \<noteq> [] \<Longrightarrow> ?rem ! 0 = hd ?rem"
    by (simp add: hd_conv_nth)
  show ?thesis
    unfolding Let_def
    using a n
    by (auto simp: removeSession_def loadSession_def handleUploadNew_def Let_def)
qed

theorem removeSession_fallback_witness:
  "activeSessionId exampleLibrary = Some ''2''
   \<and> activeSessionId (removeSession ''2'' exampleLibrary) = Some ''1''
   \<and> step (removeSession ''2'' exampleLibrary) = Step_chapters
   \<and> activeSessionId (removeSession ''1'' exampleLibrary) = Some ''2''
   \<and> step (removeSession ''1'' (removeSession ''2'' exampleLibrary)) = Step_upload
   \<and> activeSessionId (removeSession ''1'' (removeSession ''2'' exampleLibrary)) = None"
proof -
  have s: "sessions exampleLibrary = [exampleSession ''2'' True, exampleSession ''1'' False]"
    and a: "activeSessionId exampleLibrary = Some ''2''"
    by (simp_all add: exampleLibrary_def loadSession_def initialApp_def exampleSession_def)
  have r2: "filter (\<lambda>x. bs_id x \<noteq> ''2'') (sessions exampleLibrary) = [exampleSession ''1'' False]"
    and r1: "filter (\<lambda>x. bs_id x \<noteq> ''1'') (sessions exampleLibrary) = [exampleSession ''2'' True]"
    unfolding s by (simp_all add: exampleSession_def)
  have i: "bs_id (exampleSession ''1'' False) = ''1''" by (simp add: exampleSession_def)
  note t2 = removeSession_fallback [of "''2''" exampleLibrary, unfolded Let_def r2]
  note t1 = removeSession_fallback [of "''1''" exampleLibrary, unfolded Let_def r1]
  have p2: "activeSessionId exampleLibrary = Some ''2'' \<and> [exampleSession ''1'' False] \<noteq> []"
    using a by simp
  from t2 p2 have q2: "activeSessionId (removeSession ''2'' exampleLibrary) =
                         Some (bs_id (hd [exampleSession ''1'' False]))
                     \<and> step (removeSession ''2'' exampleLibrary) = Step_chapters
                     \<and> sessions (removeSession ''2'' exampleLibrary) = [exampleSession ''1'' False]"
    by blast
  have b: "activeSessionId (removeSession ''2'' exampleLibrary) = Some ''1''"
    and c: "step (removeSession ''2'' exampleLibrary) = Step_chapters"
    and d: "sessions (removeSession ''2'' exampleLibrary) = [exampleSession ''1'' False]"
    using q2 i by simp_all
  have p1: "activeSessionId exampleLibrary \<noteq> Some ''1''"
    using a by simp
  from t1 p1 have "activeSessionId (removeSession ''1'' exampleLibrary) = activeSessionId exampleLibrary"
    by blast
  then have e: "activeSessionId (removeSession ''1'' exampleLibrary) = Some ''2''"
    using a by simp
  have r3: "filter (\<lambda>x. bs_id x \<noteq> ''1'') (sessions (removeSession ''2'' exampleLibrary)) = []"
    unfolding d by (simp add: exampleSession_def)
  note t3 = removeSession_fallback [of "''1''" "removeSession ''2'' exampleLibrary", unfolded Let_def r3]
  from t3 b have "step (removeSession ''1'' (removeSession ''2'' exampleLibrary)) = Step_upload
                \<and> activeSessionId (removeSession ''1'' (removeSession ''2'' exampleLibrary)) = None"
    by blast
  then show ?thesis using a b c e by simp
qed

section \<open>The paths of the analysis request\<close>

lemma analysisParts_cases:
  "analysisParts chapterTitle chapterText type pdf =
     (if chapterText \<noteq> None \<and> 100 < length (the chapterText)
      then Inr [TextPart (textPrompt chapterTitle type (the chapterText))]
      else if pdf \<noteq> None \<and> pdf \<noteq> Some []
      then Inr [InlineData ''application/pdf'' (the pdf), TextPart (documentPrompt chapterTitle type)]
      else Inl (Error ''Insufficient content to analyze. Neither text nor PDF data provided.''))"
  by (auto simp: analysisParts_def)

lemma analyzeChapterContent_requests:
  "snd (analyzeChapterContent env chapterTitle chapterText type pdf) =
     (case analysisParts chapterTitle chapterText type pdf of
        Inl e \<Rightarrow> []
      | Inr parts \<Rightarrow> [GenerateContent MODEL_NAME parts])"
  by (simp add: analyzeChapterContent_def Let_def split: sum.splits)

lemma documentPrompt_names_chapter:
  "\<exists>before after. documentPrompt chapterTitle type =
      before @ ''LOCATE the chapter titled '' @ [dquote] @ chapterTitle @ [dquote] @ after"
  unfolding documentPrompt_def
  by (rule exI [of _ "''I am providing the full PDF of the book. '' @ [nl] @ ''    1. ''"], rule exI) simp

text \<open>
  Claim C5, as amended. \<open>analyzeChapterContent\<close> takes the text path exactly when
  chapter text of more than 100 characters is given: the one request carries the
  text prompt and no document. Otherwise, when document bytes are given, the one
  request carries the whole document and the instruction to locate the chapter by
  its title. Otherwise it throws the insufficient-content error and makes no
  request.
\<close>

theorem analyzeChapterContent_paths:
  "snd (analyzeChapterContent env chapterTitle chapterText type pdf) =
     (if chapterText \<noteq> None \<and> 100 < length (the chapterText)
      then [GenerateContent MODEL_NAME [TextPart (textPrompt chapterTitle type (the chapterText))]]
      else if pdf \<noteq> None \<and> pdf \<noteq> Some []
      then [GenerateContent MODEL_NAME
              [InlineData ''application/pdf'' (the pdf), TextPart (documentPrompt chapterTitle type)]]
      else [])
   \<and> (\<not> (chapterText \<noteq> None \<and> 100 < length (the chapterText)) \<and> \<not> (pdf \<noteq> None \<and> pdf \<noteq> Some [])
        \<longrightarrow> fst (analyzeChapterContent env chapterTitle chapterText type pdf) =
              Inl (Error ''Insufficient content to analyze. Neither text nor PDF data provided.''))
   \<and> (\<exists>before after. documentPrompt chapterTitle type =
          before @ ''LOCATE the chapter titled '' @ [dquote] @ chapterTitle @ [dquote] @ after)"
proof -
  have "fst (analyzeChapterContent env chapterTitle chapterText type pdf) =
        Inl (Error ''Insufficient content to analyze. Neither text nor PDF data provided.'')"
    if "\<not> (chapterText \<noteq> None \<and> 100 < length (the chapterText))" "\<not> (pdf \<noteq> None \<and> pdf \<noteq> Some [])"
  proof -
    have "analysisParts chapterTitle chapterText type pdf =
          Inl (Error ''Insufficient content to analyze. Neither text nor PDF data provided.'')"
      unfolding analysisParts_cases using that by auto
    then show ?thesis by (simp add: analyzeChapterContent_def)
  qed
  then show ?thesis
    using documentPrompt_names_chapter [of chapterTitle type]
    by (simp add: analyzeChapterContent_requests analysisParts_cases)
qed

theorem analyzeChapterContent_paths_witness:
  "snd (analyzeChapterContent exampleEnv ''Alpha'' (Some (replicate 101 CHR ''a'')) STANDARD (Some ''JVBERi0='')) =
     [GenerateContent MODEL_NAME [TextPart (textPrompt ''Alpha'' STANDARD (replicate 101 CHR ''a''))]]
   \<and> snd (analyzeChapterContent exampleEnv ''Alpha'' None STANDARD (Some ''JVBERi0='')) =
     [GenerateContent MODEL_NAME
        [InlineData ''application/pdf'' ''JVBERi0='', TextPart (documentPrompt ''Alpha'' STANDARD)]]
   \<and> analyzeChapterContent exampleEnv ''Alpha'' None STANDARD None =
     (Inl (Error ''Insufficient content to analyze. Neither text nor PDF data provided.''), [])"
  using analyzeChapterContent_paths [of exampleEnv "''Alpha''" "Some (replicate 101 CHR ''a'')" STANDARD "Some ''JVBERi0=''"]
        analyzeChapterContent_paths [of exampleEnv "''Alpha''" None STANDARD "Some ''JVBERi0=''"]
        analyzeChapterContent_paths [of exampleEnv "''Alpha''" None STANDARD None]
  by (simp add: prod_eq_iff)

text \<open>
  The claim as it was stated puts the threshold at 100 characters. A text of
  exactly 100 characters does not take the text path: with document bytes at hand
  the whole document is sent.
\<close>

theorem analysisParts_100_counterexample:
  "length (replicate 100 CHR ''a'') \<ge> 100
   \<and> analysisParts ''Alpha'' (Some (replicate 100 CHR ''a'')) STANDARD (Some ''JVBERi0='') =
       Inr [InlineData ''application/pdf'' ''JVBERi0='', TextPart (documentPrompt ''Alpha'' STANDARD)]"
  by (simp add: analysisParts_cases)

section \<open>The matcher and the search\<close>

lemma try_rep_Some:
  "try_rep f s k = Some m \<Longrightarrow> \<exists>j n. 1 \<le> j \<and> j \<le> k \<and> f (drop j s) = Some n \<and> m = j + n"
proof (induction k)
  case 0
  then show ?case by simp
next
  case (Suc k)
  show ?case
  proof (cases "f (drop (Suc k) s)")
    case None
    with Suc.prems have "try_rep f s k = Some m" by simp
    from Suc.IH [OF this] obtain j n where "1 \<le> j" "j \<le> k" "f (drop j s) = Some n" "m = j + n"
      by blast
    then show ?thesis by (intro exI [of _ j] exI [of _ n]) simp
  next
    case (Some n)
    with Suc.prems have "m = Suc k + n" by simp
    with Some show ?thesis by (intro exI [of _ "Suc k"] exI [of _ n]) simp
  qed
qed

lemma match_here_bounds:
  "match_here p s = Some n \<Longrightarrow> n \<le> length s \<and> (p \<noteq> [] \<longrightarrow> 0 < n)"
proof (induction p arbitrary: s n)
  case Nil
  then show ?case by simp
next
  case (Cons x p)
  show ?case
  proof (cases x)
    case (One a)
    with Cons.prems obtain y ys n' where s: "s = y # ys" and m: "match_here p ys = Some n'"
      and n: "n = Suc n'"
      by (auto split: list.splits if_splits)
    from Cons.IH [OF m] have "n' \<le> length ys" by simp
    with s n show ?thesis by simp
  next
    case (Plus a)
    with Cons.prems have
      "try_rep (match_here p) s (length (takeWhile (atom_matches a) s)) = Some n" by simp
    from try_rep_Some [OF this] obtain j n' where j: "1 \<le> j" "j \<le> length (takeWhile (atom_matches a) s)"
      and m: "match_here p (drop j s) = Some n'" and n: "n = j + n'"
      by blast
    have "length (takeWhile (atom_matches a) s) \<le> length s" by (rule length_takeWhile_le)
    with j have js: "j \<le> length s" by simp
    from Cons.IH [OF m] have "n' \<le> length s - j" by simp
    with js n j show ?thesis by simp
  qed
qed

lemma regex_search_Some:
  "regex_search p s i = Some (a, b) \<Longrightarrow>
   \<exists>j n. j \<le> length s \<and> a = i + j \<and> b = a + n \<and> match_here p (drop j s) = Some n
        \<and> (\<forall>j' < j. match_here p (drop j' s) = None)"
proof (induction s arbitrary: i)
  case Nil
  then show ?case by auto
next
  case (Cons c cs)
  show ?case
  proof (cases "match_here p (c # cs)")
    case (Some n)
    with Cons.prems have "a = i" "b = i + n" by simp_all
    with Some show ?thesis by (intro exI [of _ 0] exI [of _ n]) simp
  next
    case None
    with Cons.prems have "regex_search p cs (Suc i) = Some (a, b)" by simp
    from Cons.IH [OF this] obtain j n where j: "j \<le> length cs" "a = Suc i + j" "b = a + n"
      "match_here p (drop j cs) = Some n" "\<forall>j' < j. match_here p (drop j' cs) = None"
      by blast
    have "\<forall>j' < Suc j. match_here p (drop j' (c # cs)) = None"
    proof (intro allI impI)
      fix j' assume "j' < Suc j"
      then show "match_here p (drop j' (c # cs)) = None"
        using None j(5) by (cases j') auto
    qed
    with j show ?thesis by (intro exI [of _ "Suc j"] exI [of _ n]) simp
  qed
qed

lemma regex_search_None:
  "regex_search p s i = None \<Longrightarrow> j \<le> length s \<Longrightarrow> match_here p (drop j s) = None"
proof (induction s arbitrary: i j)
  case Nil
  then show ?case by simp
next
  case (Cons c cs)
  from Cons.prems(1) have n: "match_here p (c # cs) = None" and r: "regex_search p cs (Suc i) = None"
    by (auto split: option.splits)
  show ?case
  proof (cases j)
    case 0
    with n show ?thesis by simp
  next
    case (Suc j')
    with Cons.prems(2) have "j' \<le> length cs" by simp
    from Cons.IH [OF r this] Suc show ?thesis by simp
  qed
qed

text \<open>
  What \<open>regex.exec\<close> finds: the leftmost position, not before \<open>lastIndex\<close>, at
  which the pattern matches, and the end of the match there.
\<close>

lemma regex_exec_Some:
  assumes "regex_exec p t lastIndex = Some (a, b)"
  shows "lastIndex \<le> a \<and> a \<le> b \<and> b \<le> length t
       \<and> match_here p (drop a t) = Some (b - a)
       \<and> (\<forall>k. lastIndex \<le> k \<and> k < a \<longrightarrow> match_here p (drop k t) = None)
       \<and> (p \<noteq> [] \<longrightarrow> a < b)"
proof -
  from assms have l: "lastIndex \<le> length t"
    and s: "regex_search p (drop lastIndex t) lastIndex = Some (a, b)"
    by (auto simp: regex_exec_def split: if_splits)
  from regex_search_Some [OF s] obtain j n where j: "j \<le> length t - lastIndex" "a = lastIndex + j"
    "b = a + n" "match_here p (drop (lastIndex + j) t) = Some n"
    "\<forall>j' < j. match_here p (drop (lastIndex + j') t) = None"
    by (auto simp: add.commute)
  from match_here_bounds [OF j(4)] have n: "n \<le> length t - (lastIndex + j)" "p \<noteq> [] \<longrightarrow> 0 < n"
    by simp_all
  have "\<forall>k. lastIndex \<le> k \<and> k < a \<longrightarrow> match_here p (drop k t) = None"
  proof (intro allI impI)
    fix k assume k: "lastIndex \<le> k \<and> k < a"
    then have "k - lastIndex < j" using j(2) by linarith
    with j(5) have "match_here p (drop (lastIndex + (k - lastIndex)) t) = None" by blast
    with k show "match_here p (drop k t) = None" by simp
  qed
  with j n l show ?thesis by auto
qed

lemma regex_exec_None:
  assumes "regex_exec p t lastIndex = None" and "lastIndex \<le> k" and "k \<le> length t"
  shows "match_here p (drop k t) = None"
proof -
  from assms have s: "regex_search p (drop lastIndex t) lastIndex = None"
    by (auto simp: regex_exec_def split: if_splits)
  from regex_search_None [OF s, of "k - lastIndex"] assms show ?thesis by simp
qed

lemma regex_exec_empty: "lastIndex \<le> length t \<Longrightarrow> regex_exec [] t lastIndex = Some (lastIndex, lastIndex)"
  by (cases "drop lastIndex t") (auto simp: regex_exec_def)

section \<open>The search loop\<close>

text \<open>
  A pattern that is not empty consumes a character in each match, so the loop over
  the matches ends. Its result extends the matches collected before.
\<close>

lemma exec_loop_terminates:
  assumes "p \<noteq> []"
  shows "\<exists>found. exec_loop p t lastIndex matches = Some (matches @ found)"
proof (induction "Suc (length t) - lastIndex" arbitrary: lastIndex matches rule: less_induct)
  case less
  show ?case
  proof (cases "regex_exec p t lastIndex")
    case None
    then show ?thesis by (subst exec_loop.simps) simp
  next
    case (Some r)
    obtain a b where r: "r = (a, b)" by (cases r)
    from regex_exec_Some [OF Some [unfolded r]] assms
    have "lastIndex \<le> a" "a < b" "b \<le> length t" by auto
    then have "Suc (length t) - b < Suc (length t) - lastIndex" by simp
    from less [OF this, of "matches @ [a]"] obtain found where
      "exec_loop p t b (matches @ [a]) = Some (matches @ [a] @ found)" by auto
    with Some r show ?thesis by (subst exec_loop.simps) simp
  qed
qed

text \<open>
  The empty pattern matches at \<open>lastIndex\<close> itself and leaves \<open>lastIndex\<close> where
  it was: the next round is the same, and the loop does not end.
\<close>

lemma exec_loop_empty_not_Some:
  assumes "exec_loop p t lastIndex matches = Some found"
  shows "\<not> (p = [] \<and> lastIndex \<le> length t)"
proof (rule exec_loop.raw_induct
         [where P = "\<lambda>p t lastIndex matches found. \<not> (p = [] \<and> lastIndex \<le> length t)", OF _ assms])
  fix f p t lastIndex matches found
  assume ih: "\<And>p t lastIndex matches found.
                f p t lastIndex matches = Some found \<Longrightarrow> \<not> (p = [] \<and> lastIndex \<le> length t)"
    and st: "(case regex_exec p t lastIndex of
                None \<Rightarrow> Some matches
              | Some (index, lastIndex') \<Rightarrow> f p t lastIndex' (matches @ [index])) = Some found"
  show "\<not> (p = [] \<and> lastIndex \<le> length t)"
  proof
    assume a: "p = [] \<and> lastIndex \<le> length t"
    then have "regex_exec p t lastIndex = Some (lastIndex, lastIndex)"
      by (simp add: regex_exec_empty)
    with st have "f p t lastIndex (matches @ [lastIndex]) = Some found" by simp
    from ih [OF this] a show False by simp
  qed
qed

lemma exec_loop_diverges: "lastIndex \<le> length t \<Longrightarrow> exec_loop [] t lastIndex matches = None"
  using exec_loop_empty_not_Some [of "[]" t lastIndex matches]
  by (cases "exec_loop [] t lastIndex matches") auto

section \<open>The pattern of a title\<close>

lemma split_on_not_Nil: "split_on c s \<noteq> []"
  by (induction s) (auto split: list.splits)

lemma join_split_on:
  "sep \<noteq> [] \<Longrightarrow> join sep (split_on c s) = concat (map (\<lambda>x. if x = c then sep else [x]) s)"
proof (induction s)
  case Nil
  then show ?case by simp
next
  case (Cons x xs)
  obtain w ws where w: "split_on c xs = w # ws"
    using split_on_not_Nil [of c xs] by (cases "split_on c xs") auto
  show ?case
  proof (cases "x = c")
    case True
    with Cons w show ?thesis by simp
  next
    case False
    with Cons w show ?thesis by (cases ws) simp_all
  qed
qed

lemma dropWhile_all: "list_all P xs \<Longrightarrow> dropWhile P xs = []"
  by (simp add: list_all_iff)

lemma trim_blank: "list_all is_space t \<Longrightarrow> trim t = []"
  by (simp add: trim_def dropWhile_all)

lemma trim_not_blank:
  assumes "\<not> list_all is_space t"
  shows "\<exists>c cs. trim t = c # cs \<and> \<not> is_space c"
proof -
  from assms have d: "dropWhile is_space t \<noteq> []"
    by (simp add: list_all_iff)
  then have h: "\<not> is_space (hd (dropWhile is_space t))"
    by (rule hd_dropWhile)
  have r: "\<not> list_all is_space (rev (dropWhile is_space t))"
    using d h by (cases "dropWhile is_space t") (auto simp: list_all_iff)
  then have e: "dropWhile is_space (rev (dropWhile is_space t)) \<noteq> []"
    by (simp add: list_all_iff)
  obtain ys where ys: "dropWhile is_space (rev (dropWhile is_space t)) = ys" by simp
  have "trim t = rev ys" by (simp add: trim_def ys)
  have "\<exists>zs. rev (dropWhile is_space t) = zs @ ys"
    unfolding ys [symmetric] by (metis takeWhile_dropWhile_id)
  then obtain zs where "dropWhile is_space t = rev ys @ rev zs"
    by (metis rev_append rev_rev_ident)
  moreover have "rev ys \<noteq> []" using e ys by simp
  ultimately have "hd (rev ys) = hd (dropWhile is_space t)" by simp
  with h \<open>rev ys \<noteq> []\<close> \<open>trim t = rev ys\<close> show ?thesis
    by (cases "rev ys") auto
qed

lemma blank_pattern: "list_all is_space t \<Longrightarrow> RegExp (createFlexiblePattern t) = []"
  by (simp add: createFlexiblePattern_def trim_blank escapeRegExp_def RegExp_def)

lemma backslash_special: "backslash \<in> set regexp_specials" "CHR ''+'' \<in> set regexp_specials"
  by (simp_all add: regexp_specials_def)

lemma re_items_Atom: "re_items (Atom a # r) \<noteq> []"
  by (cases r rule: re_items.cases) auto

lemma not_blank_pattern:
  assumes "\<not> list_all is_space t"
  shows "RegExp (createFlexiblePattern t) \<noteq> []"
proof -
  from trim_not_blank [OF assms] obtain c cs where t: "trim t = c # cs" and c: "\<not> is_space c"
    by blast
  have sp: "is_space CHR '' ''" by (simp add: is_space_def)
  with c have c': "c \<noteq> CHR '' ''" by auto
  have cl: "collapse_ws (trim t) = c # collapse_ws cs"
    using t c by simp
  let ?sep = "backslash # ''s+''"
  let ?f = "\<lambda>x. if x = CHR '' '' then ?sep else [x]"
  have pat: "createFlexiblePattern t = concat (map ?f (escapeRegExp (c # collapse_ws cs)))"
    by (simp add: createFlexiblePattern_def Let_def cl join_split_on)
  have bs: "backslash \<noteq> CHR '' ''" "backslash \<noteq> CHR ''+''" by (simp_all add: backslash_def)
  show ?thesis
  proof (cases "c \<in> set regexp_specials")
    case True
    then have "createFlexiblePattern t = backslash # c # concat (map ?f (escapeRegExp (collapse_ws cs)))"
      unfolding pat using c' bs by (simp add: escapeRegExp_def)
    then show ?thesis by (simp add: RegExp_def re_items_Atom)
  next
    case False
    then have p: "createFlexiblePattern t = c # concat (map ?f (escapeRegExp (collapse_ws cs)))"
      unfolding pat using c' by (simp add: escapeRegExp_def)
    from False backslash_special have "c \<noteq> backslash" "c \<noteq> CHR ''+''" by auto
    then show ?thesis by (simp add: p RegExp_def re_items_Atom)
  qed
qed

section \<open>The start of the span\<close>

lemma exec_loop_result:
  assumes "p \<noteq> []"
  shows "\<exists>found. \<forall>matches. exec_loop p t lastIndex matches = Some (matches @ found)"
proof (induction "Suc (length t) - lastIndex" arbitrary: lastIndex rule: less_induct)
  case less
  show ?case
  proof (cases "regex_exec p t lastIndex")
    case None
    then have "\<forall>matches. exec_loop p t lastIndex matches = Some (matches @ [])"
      by (subst exec_loop.simps) simp
    then show ?thesis by blast
  next
    case (Some r)
    obtain a b where r: "r = (a, b)" by (cases r)
    from regex_exec_Some [OF Some [unfolded r]] assms
    have "lastIndex \<le> a" "a < b" "b \<le> length t" by auto
    then have "Suc (length t) - b < Suc (length t) - lastIndex" by simp
    from less [OF this] obtain found where
      f: "\<forall>matches. exec_loop p t b matches = Some (matches @ found)" by auto
    have "\<forall>matches. exec_loop p t lastIndex matches = Some (matches @ (a # found))"
      using Some r f by (subst exec_loop.simps) simp
    then show ?thesis by blast
  qed
qed

text \<open>
  What the loop collects for a pattern that is not empty: nothing exactly when the
  pattern matches nowhere; otherwise first the leftmost position at which it
  matches, and then what the loop collects from the end of that match on.
\<close>

lemma exec_loop_matches:
  assumes "p \<noteq> []" and "exec_loop p t lastIndex [] = Some found"
  shows "(case regex_exec p t lastIndex of
            None \<Rightarrow> found = []
          | Some (a, b) \<Rightarrow> \<exists>later. found = a # later \<and> exec_loop p t b [] = Some later)"
proof (cases "regex_exec p t lastIndex")
  case None
  with assms(2) show ?thesis by (subst (asm) exec_loop.simps) simp
next
  case (Some r)
  obtain a b where r: "r = (a, b)" by (cases r)
  from exec_loop_result [OF assms(1), of t b] obtain later where
    l: "\<forall>matches. exec_loop p t b matches = Some (matches @ later)" by blast
  from assms(2) Some r have "exec_loop p t b [a] = Some found"
    by (subst (asm) exec_loop.simps) simp
  with l have "found = a # later" by simp
  moreover from l have "exec_loop p t b [] = Some later" by simp
  ultimately show ?thesis using Some r by simp
qed

lemma titleStart_blank: "list_all is_space chapterTitle \<Longrightarrow> titleStart fullText chapterTitle = None"
  by (simp add: titleStart_def blank_pattern exec_loop_diverges)

lemma findChapterText_blank:
  "list_all is_space chapterTitle \<Longrightarrow> findChapterText fullText chapterTitle nextChapterTitle = None"
  by (simp add: findChapterText_def findStartIndex_def titleStart_blank)

lemma titleStart_not_blank:
  assumes "\<not> list_all is_space chapterTitle"
  shows "\<exists>matches. exec_loop (RegExp (createFlexiblePattern chapterTitle)) fullText 0 [] = Some matches
           \<and> titleStart fullText chapterTitle = Some (tocAvoidingStart matches fullText)"
proof -
  from exec_loop_terminates [OF not_blank_pattern [OF assms], of fullText 0 "[]"]
  obtain matches where "exec_loop (RegExp (createFlexiblePattern chapterTitle)) fullText 0 [] = Some matches"
    by auto
  then show ?thesis by (simp add: titleStart_def)
qed

lemma space_not_letter:
  "is_space c \<Longrightarrow> canonicalize c \<noteq> canonicalize CHR ''C'' \<and> canonicalize c \<noteq> canonicalize CHR ''P''"
  by (auto simp: is_space_def canonicalize_def Let_def)

lemma keywordNumber_not_blank:
  assumes "keywordNumber (k # ks) s = Some m" and "\<And>c. is_space c \<Longrightarrow> canonicalize c \<noteq> canonicalize k"
  shows "\<not> list_all is_space m"
proof -
  from assms(1) have c: "map canonicalize (take (Suc (length ks)) s) = map canonicalize (k # ks)"
    and m: "m = take (Suc (length ks) + length (takeWhile is_space (drop (Suc (length ks)) s))
                     + length (takeWhile is_digit (dropWhile is_space (drop (Suc (length ks)) s)))) s"
    by (auto simp: keywordNumber_def Let_def split: if_splits)
  from c obtain x xs where s: "s = x # xs" and x: "canonicalize x = canonicalize k"
    by (cases s) auto
  from x assms(2) have "\<not> is_space x" by auto
  with m s show ?thesis by simp
qed

lemma numberMatch_not_blank: "numberMatch chapterTitle = Some m \<Longrightarrow> \<not> list_all is_space m"
  unfolding numberMatch_def
  using keywordNumber_not_blank [of "CHR ''C''" "''hapter''" chapterTitle m]
        keywordNumber_not_blank [of "CHR ''P''" "''art''" chapterTitle m]
        space_not_letter
  by (auto split: option.splits)

lemma numberStart_returns: "\<exists>r. numberStart fullText chapterTitle = Some r"
proof (cases "numberMatch chapterTitle")
  case None
  then show ?thesis by (simp add: numberStart_def)
next
  case (Some m)
  from exec_loop_terminates [OF not_blank_pattern [OF numberMatch_not_blank [OF Some]], of fullText 0 "[]"]
  obtain numMatches where "exec_loop (RegExp (createFlexiblePattern m)) fullText 0 [] = Some numMatches"
    by auto
  with Some show ?thesis by (simp add: numberStart_def)
qed

text \<open>
  For a title with a character that is not white space the locator returns: a text
  or the failure signal.
\<close>

lemma findChapterText_returns:
  assumes "\<not> list_all is_space chapterTitle"
  shows "\<exists>r. findChapterText fullText chapterTitle nextChapterTitle = Some r"
proof -
  from titleStart_not_blank [OF assms] obtain r1 where "titleStart fullText chapterTitle = Some r1"
    by blast
  moreover from numberStart_returns obtain r3 where "numberStart fullText chapterTitle = Some r3"
    by blast
  ultimately have "\<exists>st. findStartIndex fullText chapterTitle = Some st"
    by (simp add: findStartIndex_def Let_def)
  then obtain st where "findStartIndex fullText chapterTitle = Some st" by blast
  then show ?thesis by (cases st) (simp_all add: findChapterText_def Let_def)
qed

text \<open>
  The rule of the first tier, for a title with a character that is not white space:
  the search for all matches ends; with at least two matches of which the first
  lies in the first twentieth of the text, the span starts at the second match; with
  at least one match otherwise, at the first.
\<close>

lemma findChapterText_title_start:
  assumes "\<not> list_all is_space chapterTitle"
  shows "\<exists>matches. exec_loop (RegExp (createFlexiblePattern chapterTitle)) fullText 0 [] = Some matches
           \<and> (matches \<noteq> [] \<longrightarrow>
                (let startIndex = (if 2 \<le> length matches \<and> 20 * (matches ! 0) < length fullText
                                   then matches ! 1 else matches ! 0)
                 in findStartIndex fullText chapterTitle = Some (Some startIndex)
                  \<and> findChapterText fullText chapterTitle nextChapterTitle =
                      Some (Some (trim (capped (string_slice fullText startIndex
                         (findEndIndex fullText chapterTitle nextChapterTitle startIndex)))))))"
proof -
  from titleStart_not_blank [OF assms] obtain matches where
    m: "exec_loop (RegExp (createFlexiblePattern chapterTitle)) fullText 0 [] = Some matches"
    and t: "titleStart fullText chapterTitle = Some (tocAvoidingStart matches fullText)"
    by blast
  have "findStartIndex fullText chapterTitle =
          Some (Some (if 2 \<le> length matches \<and> 20 * (matches ! 0) < length fullText
                      then matches ! 1 else matches ! 0))"
    if "matches \<noteq> []"
    using that t by (auto simp: findStartIndex_def tocAvoidingStart_def Let_def)
  then show ?thesis
    using m by (auto simp: findChapterText_def Let_def)
qed

text \<open>
  Claim C1 quantifies over every chapter title. For a title of white space only
  (or the empty title) the pattern is empty; it matches at index 0 without moving
  \<open>lastIndex\<close>, the loop that collects the matches does not end, and
  \<open>findChapterText\<close> returns nothing, where the claim has it return the span from
  the second occurrence of the pattern (index 1).
\<close>

theorem findChapterText_blank_title_diverges:
  "RegExp (createFlexiblePattern '' '') = []
   \<and> regex_exec (RegExp (createFlexiblePattern '' '')) ''ab'' 0 = Some (0, 0)
   \<and> regex_exec (RegExp (createFlexiblePattern '' '')) ''ab'' 1 = Some (1, 1)
   \<and> findChapterText ''ab'' '' '' None = None"
proof -
  have b: "list_all is_space '' ''" by (simp add: is_space_def)
  from blank_pattern [OF b] findChapterText_blank [OF b, of "''ab''" None]
  show ?thesis by (simp add: regex_exec_empty)
qed

section \<open>The end of the span\<close>

lemma slice_nth: "string_slice t a b = map (\<lambda>k. t ! k) [a..<min b (length t)]"
proof (rule nth_equalityI)
  show l: "length (string_slice t a b) = length (map (\<lambda>k. t ! k) [a..<min b (length t)])"
    unfolding string_slice_def length_take length_drop length_map length_upt by arith
  fix i assume "i < length (string_slice t a b)"
  then have "i < b - a" "a + i < length t" "i < min b (length t) - a"
    unfolding string_slice_def length_take length_drop by arith+
  then show "string_slice t a b ! i = map (\<lambda>k. t ! k) [a..<min b (length t)] ! i"
    by (simp add: string_slice_def)
qed

lemma slice_to_end: "string_slice t a (length t) = drop a t"
  by (simp add: string_slice_def)

lemma capped_short: "length extracted \<le> CHAR_LIMIT \<Longrightarrow> capped extracted = extracted"
  by (simp add: capped_def)

text \<open>
  Claim C2. Let a start be detected and a next-chapter title be supplied (neither
  \<open>null\<close> nor empty). The next title is searched in the text from
  \<open>offset = startIndex + min (length chapterTitle) 50\<close> on. If it matches there,
  the end of the span is the position of its first match at or behind the offset,
  and the span extracted holds the characters of the text from the start up to,
  and without, that position. If it does not match there, the span extracted runs
  to the end of the document. The text returned is the span extracted, capped and
  trimmed.
\<close>

theorem findChapterText_end_boundary:
  assumes "findStartIndex fullText chapterTitle = Some (Some startIndex)" and "next \<noteq> []"
  shows "(let offset = startIndex + min (length chapterTitle) 50;
              nextRegex = RegExp (createFlexiblePattern next)
          in case regex_exec nextRegex (drop offset fullText) 0 of
               Some (index, e) \<Rightarrow>
                 findEndIndex fullText chapterTitle (Some next) startIndex = offset + index
               \<and> match_here nextRegex (drop (offset + index) fullText) = Some (e - index)
               \<and> (\<forall>k. offset \<le> k \<and> k < offset + index \<longrightarrow>
                      match_here nextRegex (drop k fullText) = None)
               \<and> string_slice fullText startIndex (offset + index) =
                   map (\<lambda>k. fullText ! k) [startIndex..<min (offset + index) (length fullText)]
               \<and> findChapterText fullText chapterTitle (Some next) =
                   Some (Some (trim (capped (string_slice fullText startIndex (offset + index)))))
             | None \<Rightarrow>
                 findEndIndex fullText chapterTitle (Some next) startIndex = length fullText
               \<and> (\<forall>k. offset \<le> k \<and> k \<le> length fullText \<longrightarrow>
                      match_here nextRegex (drop k fullText) = None)
               \<and> findChapterText fullText chapterTitle (Some next) =
                   Some (Some (trim (capped (drop startIndex fullText)))))"
proof -
  define offset where "offset = startIndex + min (length chapterTitle) 50"
  define nextRegex where "nextRegex = RegExp (createFlexiblePattern next)"
  have ctx: "string_slice fullText offset (length fullText) = drop offset fullText"
    by (rule slice_to_end)
  have fe: "findEndIndex fullText chapterTitle (Some next) startIndex =
              (case regex_exec nextRegex (drop offset fullText) 0 of
                 Some (index, e) \<Rightarrow> offset + index
               | None \<Rightarrow> length fullText)"
    unfolding offset_def nextRegex_def using assms(2) by (simp add: findEndIndex_def Let_def slice_to_end)
  have fc: "findChapterText fullText chapterTitle (Some next) =
              Some (Some (trim (capped (string_slice fullText startIndex
                 (findEndIndex fullText chapterTitle (Some next) startIndex)))))"
    using assms(1) by (simp add: findChapterText_def Let_def)
  show ?thesis
  proof (cases "regex_exec nextRegex (drop offset fullText) 0")
    case None
    have "\<forall>k. offset \<le> k \<and> k \<le> length fullText \<longrightarrow> match_here nextRegex (drop k fullText) = None"
    proof (intro allI impI)
      fix k assume k: "offset \<le> k \<and> k \<le> length fullText"
      then have "k - offset \<le> length (drop offset fullText)"
        unfolding length_drop by arith
      from regex_exec_None [OF None _ this] k
      show "match_here nextRegex (drop k fullText) = None" by simp
    qed
    with None fe fc show ?thesis
      unfolding Let_def offset_def [symmetric] nextRegex_def [symmetric]
      by (simp add: slice_to_end)
  next
    case (Some r)
    obtain index e where r: "r = (index, e)" by (cases r)
    from regex_exec_Some [OF Some [unfolded r]]
    have m: "match_here nextRegex (drop index (drop offset fullText)) = Some (e - index)"
      and n: "\<forall>k. k < index \<longrightarrow> match_here nextRegex (drop k (drop offset fullText)) = None"
      by auto
    have "\<forall>k. offset \<le> k \<and> k < offset + index \<longrightarrow> match_here nextRegex (drop k fullText) = None"
    proof (intro allI impI)
      fix k assume k: "offset \<le> k \<and> k < offset + index"
      then have "k - offset < index" by linarith
      with n have "match_here nextRegex (drop (k - offset) (drop offset fullText)) = None" by blast
      with k show "match_here nextRegex (drop k fullText) = None" by simp
    qed
    moreover from m have "match_here nextRegex (drop (offset + index) fullText) = Some (e - index)"
      by (simp add: add.commute)
    ultimately show ?thesis
      unfolding Let_def offset_def [symmetric] nextRegex_def [symmetric]
      using Some r fe fc by (simp add: slice_nth)
  qed
qed

theorem findChapterText_end_boundary_witness:
  "findStartIndex ''Chapter 1 alpha beta. Chapter 2 gamma.'' ''Chapter 1'' = Some (Some 0)
   \<and> findEndIndex ''Chapter 1 alpha beta. Chapter 2 gamma.'' ''Chapter 1'' (Some ''Chapter 2'') 0 = 22
   \<and> findChapterText ''Chapter 1 alpha beta. Chapter 2 gamma.'' ''Chapter 1'' (Some ''Chapter 2'') =
       Some (Some ''Chapter 1 alpha beta.'')
   \<and> findChapterText ''Chapter 1 alpha beta. Chapter 2 gamma.'' ''Chapter 1'' (Some ''Chapter 3'') =
       Some (Some ''Chapter 1 alpha beta. Chapter 2 gamma.'')"
proof -
  let ?t = "''Chapter 1 alpha beta. Chapter 2 gamma.''"
  have s: "findStartIndex ?t ''Chapter 1'' = Some (Some 0)" by code_simp
  have n2: "''Chapter 2'' \<noteq> []" and n3: "''Chapter 3'' \<noteq> []" by simp_all
  have r2: "regex_exec (RegExp (createFlexiblePattern ''Chapter 2'')) (drop (0 + min (length ''Chapter 1'') 50) ?t) 0
              = Some (13, 22)" by code_simp
  have r3: "regex_exec (RegExp (createFlexiblePattern ''Chapter 3'')) (drop (0 + min (length ''Chapter 1'') 50) ?t) 0
              = None" by code_simp
  note t2 = findChapterText_end_boundary [OF s n2, unfolded Let_def r2]
  note t3 = findChapterText_end_boundary [OF s n3, unfolded Let_def r3]
  have e: "findEndIndex ?t ''Chapter 1'' (Some ''Chapter 2'') 0 = 22"
    using t2 by simp
  have c2: "findChapterText ?t ''Chapter 1'' (Some ''Chapter 2'') = Some (Some ''Chapter 1 alpha beta.'')"
    using t2 by (simp add: string_slice_def capped_def CHAR_LIMIT_def trim_def is_space_def)
  have c3: "findChapterText ?t ''Chapter 1'' (Some ''Chapter 3'') = Some (Some ?t)"
    using t3 by (simp add: capped_def CHAR_LIMIT_def trim_def is_space_def)
  show ?thesis using s e c2 c3 by simp
qed

section \<open>The fallback tiers\<close>

text \<open>
  When the pattern of the whole title matches nowhere, the start is what the
  fallbacks give, in their order: the first match of the pattern of the first
  eight pieces of the title, tried when the title splits into more than three
  pieces; then the numbered prefix, with the choice of the first tier; and the
  failure signal when both give nothing.
\<close>

lemma findStartIndex_fallbacks:
  assumes "exec_loop (RegExp (createFlexiblePattern chapterTitle)) fullText 0 [] = Some []"
  shows "findStartIndex fullText chapterTitle =
           (case shortTitleStart fullText chapterTitle of
              Some index \<Rightarrow> Some (Some index)
            | None \<Rightarrow> numberStart fullText chapterTitle)"
    and "findStartIndex fullText chapterTitle = Some None \<Longrightarrow>
           findChapterText fullText chapterTitle nextChapterTitle = Some None"
  using assms
  by (auto simp: findStartIndex_def titleStart_def tocAvoidingStart_def findChapterText_def Let_def
           split: option.splits)

text \<open>
  Claim C3 speaks of the first eight words of the title. The source takes the
  first eight pieces of \<open>chapterTitle.split(/\s+/)\<close>, and for a title that starts
  with white space the first piece is empty: the retry then uses seven words. The
  title below has eight words behind a leading space. Its first seven words stand
  in the text and the eighth does not, so the pattern of the eight words matches
  nowhere, and the title has no numbered prefix: the claim gives not-found, the
  code returns a span.
\<close>

theorem findChapterText_leading_space_title:
  "split_ws '' a b c d e f g h'' = ['''', ''a'', ''b'', ''c'', ''d'', ''e'', ''f'', ''g'', ''h'']
   \<and> regex_exec (RegExp (createFlexiblePattern ''a b c d e f g h'')) ''a b c d e f g x'' 0 = None
   \<and> numberMatch '' a b c d e f g h'' = None
   \<and> shortTitleStart ''a b c d e f g x'' '' a b c d e f g h'' = Some 0
   \<and> findChapterText ''a b c d e f g x'' '' a b c d e f g h'' None = Some (Some ''a b c d e f g x'')"
proof -
  have w: "split_ws '' a b c d e f g h'' = ['''', ''a'', ''b'', ''c'', ''d'', ''e'', ''f'', ''g'', ''h'']"
    by code_simp
  have r: "regex_exec (RegExp (createFlexiblePattern ''a b c d e f g h'')) ''a b c d e f g x'' 0 = None"
    by code_simp
  have n: "numberMatch '' a b c d e f g h'' = None" by code_simp
  have sh: "shortTitleStart ''a b c d e f g x'' '' a b c d e f g h'' = Some 0" by code_simp
  have s: "findStartIndex ''a b c d e f g x'' '' a b c d e f g h'' = Some (Some 0)" by code_simp
  have "findChapterText ''a b c d e f g x'' '' a b c d e f g h'' None = Some (Some ''a b c d e f g x'')"
    by (simp add: findChapterText_def s findEndIndex_def string_slice_def capped_def CHAR_LIMIT_def
                  trim_def is_space_def)
  with w r n sh show ?thesis by simp
qed

section \<open>Scanned mode and the path of the requests\<close>

lemma identifyChapters_requests:
  "snd (identifyChapters env t pdf) =
     [GenerateContent MODEL_NAME
        ((if pdf \<noteq> None \<and> pdf \<noteq> Some []
          then [InlineData ''application/pdf'' (the pdf), TextPart documentIdentifyPrompt]
          else [TextPart (textIdentifyPrompt (string_slice t 0 60000))])
         @ [TextPart chapterListPrompt])]"
  by (simp add: identifyChapters_def Let_def)

text \<open>
  An upload whose file is read and whose text is extracted ends in one of three
  ways, after the one identification request: the request fails, no chapter is
  identified, or a new session is put first in the collection and loaded.
\<close>

lemma handleFileSelect_outcome:
  assumes "file_base64 f = Inr base64" and "extractTextFromPDF f = Inr (t, isScanned)"
    and "final = (isScanned \<or> length t < 500)"
  shows "handleFileSelect env now f s =
           (case identifyChapters env (if final then [] else t) (if final then Some base64 else None) of
              (Inl e, requests) \<Rightarrow> (uploadFailed e (decidedState s base64 t final), requests)
            | (Inr cs, requests) \<Rightarrow>
                if cs = []
                then (uploadFailed (Error ''Could not identify chapters. Try a different book.'')
                        (decidedState s base64 t final), requests)
                else (loadSession (uploadedSession now f cs base64 t final)
                        ((decidedState s base64 t final)
                           \<lparr> sessions := uploadedSession now f cs base64 t final # sessions s \<rparr>),
                      requests))"
proof -
  have f: "(if isScanned then True else if length t < 500 then True else isScanned) = final"
    using assms(3) by simp
  show ?thesis
    unfolding handleFileSelect_def Let_def assms(1,2) f sum.case prod.case
              decidedState_def uploadedSession_def
    by (simp split: prod.splits sum.splits)
qed

lemma handleFileSelect_decides:
  assumes "file_base64 f = Inr base64" and "extractTextFromPDF f = Inr (t, isScanned)"
    and "final = (isScanned \<or> length t < 500)"
    and "identifyChapters env (if final then [] else t) (if final then Some base64 else None) = (r, reqs)"
  shows "isScannedMode (fst (handleFileSelect env now f s)) = final"
    and "snd (handleFileSelect env now f s) = reqs"
    and "r = Inr cs \<Longrightarrow> cs \<noteq> [] \<Longrightarrow>
           sessions (fst (handleFileSelect env now f s)) = uploadedSession now f cs base64 t final # sessions s
         \<and> step (fst (handleFileSelect env now f s)) = Step_chapters
         \<and> shows_session (fst (handleFileSelect env now f s)) (uploadedSession now f cs base64 t final)
         \<and> bs_isScannedMode (uploadedSession now f cs base64 t final) = final"
proof -
  note o = handleFileSelect_outcome [OF assms(1,2,3), of env now s, unfolded assms(4) prod.case]
  consider (failed) e where "r = Inl e" | (none) "r = Inr []" | (some) cs' where "r = Inr cs'" "cs' \<noteq> []"
    by (cases r) auto
  then show "isScannedMode (fst (handleFileSelect env now f s)) = final"
  proof cases
    case failed
    then show ?thesis unfolding o by (simp add: uploadFailed_def decidedState_def)
  next
    case none
    then show ?thesis unfolding o by (simp add: uploadFailed_def decidedState_def)
  next
    case some
    then show ?thesis unfolding o by (simp add: loadSession_def uploadedSession_def)
  qed
  show "snd (handleFileSelect env now f s) = reqs"
    unfolding o by (cases r) simp_all
  show "sessions (fst (handleFileSelect env now f s)) = uploadedSession now f cs base64 t final # sessions s
         \<and> step (fst (handleFileSelect env now f s)) = Step_chapters
         \<and> shows_session (fst (handleFileSelect env now f s)) (uploadedSession now f cs base64 t final)
         \<and> bs_isScannedMode (uploadedSession now f cs base64 t final) = final"
    if "r = Inr cs" "cs \<noteq> []"
    unfolding o using that
    by (simp add: loadSession_def shows_session_def decidedState_def uploadedSession_def)
qed

lemma handleFileSelect_step:
  assumes "step s = Step_upload" and "step (fst (handleFileSelect env now f s)) \<noteq> Step_upload"
  shows "\<exists>x. x \<in> set (sessions (fst (handleFileSelect env now f s)))
           \<and> activeSessionId (fst (handleFileSelect env now f s)) = Some (bs_id x)
           \<and> pdfText (fst (handleFileSelect env now f s)) = bs_pdfText x
           \<and> pdfBase64 (fst (handleFileSelect env now f s)) = bs_pdfBase64 x
           \<and> isScannedMode (fst (handleFileSelect env now f s)) = bs_isScannedMode x
           \<and> chapters (fst (handleFileSelect env now f s)) = bs_chapters x"
proof (cases "file_base64 f")
  case (Inl e)
  with assms show ?thesis by (simp add: handleFileSelect_def Let_def uploadFailed_def)
next
  case b: (Inr base64)
  show ?thesis
  proof (cases "extractTextFromPDF f")
    case (Inl e)
    with b assms show ?thesis by (simp add: handleFileSelect_def Let_def uploadFailed_def)
  next
    case (Inr r)
    obtain t isScanned where r: "r = (t, isScanned)" by (cases r)
    define final where "final = (isScanned \<or> length t < 500)"
    note o = handleFileSelect_outcome [OF b Inr [unfolded r] final_def, of env now s]
    obtain res reqs where i: "identifyChapters env (if final then [] else t)
                              (if final then Some base64 else None) = (res, reqs)"
      by (cases "identifyChapters env (if final then [] else t) (if final then Some base64 else None)")
    consider (failed) e where "res = Inl e" | (none) "res = Inr []"
      | (some) cs where "res = Inr cs" "cs \<noteq> []"
      by (cases res) auto
    then show ?thesis
    proof cases
      case failed
      with assms show ?thesis unfolding o i by (simp add: uploadFailed_def decidedState_def)
    next
      case none
      with assms show ?thesis unfolding o i by (simp add: uploadFailed_def decidedState_def)
    next
      case some
      then show ?thesis unfolding o i
        by (intro exI [of _ "uploadedSession now f cs base64 t final"])
           (simp add: loadSession_def decidedState_def uploadedSession_def)
    qed
  qed
qed

text \<open>Pages that give no text: the extracted text is empty, and the file counts as scanned.\<close>

lemma extractPages_blank:
  assumes "\<forall>p \<in> set pages. case p of None \<Rightarrow> True | Some items \<Rightarrow> trim (join '' '' items) = []"
  shows "extractPages i pages state = state"
  using assms
proof (induction pages arbitrary: i)
  case Nil
  then show ?case by simp
next
  case (Cons p ps)
  obtain fullText total where st: "state = (fullText, total)" by (cases state)
  from Cons show ?case unfolding st by (cases p) (auto simp: Let_def)
qed

lemma extractTextFromPDF_blank:
  assumes "file_pages file = Inr pages"
    and "\<forall>p \<in> set pages. case p of None \<Rightarrow> True | Some items \<Rightarrow> trim (join '' '' items) = []"
  shows "extractTextFromPDF file = Inr ([], pages \<noteq> [])"
  using assms(1) extractPages_blank [OF assms(2), of 1 "([], 0)"]
  by (simp add: extractTextFromPDF_def trim_def)

lemma loadSession_shows: "x \<in> set (sessions s) \<Longrightarrow>
    step (loadSession x s) \<noteq> Step_upload \<and> x \<in> set (sessions (loadSession x s)) \<and> shows_session (loadSession x s) x"
  by (simp add: loadSession_def shows_session_def)

lemma handleChapterAnalysis_view:
  assumes "handleChapterAnalysis env chapter type s = Some (s', requests)"
  shows "sessions s' = sessions s \<and> activeSessionId s' = activeSessionId s \<and> pdfText s' = pdfText s
       \<and> pdfBase64 s' = pdfBase64 s \<and> isScannedMode s' = isScannedMode s \<and> chapters s' = chapters s"
  using assms
  by (auto simp: handleChapterAnalysis_def Let_def split: option.splits sum.splits prod.splits)

text \<open>An analysis asked for in scanned mode: no text is extracted, the document is sent.\<close>

lemma handleChapterAnalysis_scanned:
  assumes "isScannedMode s"
  shows "\<exists>s'. handleChapterAnalysis env chapter type s =
           Some (s', if pdfBase64 s = [] then []
                     else [GenerateContent MODEL_NAME
                             [InlineData ''application/pdf'' (pdfBase64 s),
                              TextPart (documentPrompt (title chapter) type)]])"
proof -
  have c: "chapterContentFor s chapter = Some None"
    using assms by (simp add: chapterContentFor_def)
  have p: "analysisParts (title chapter) None type (Some (pdfBase64 s)) =
             (if pdfBase64 s = [] then Inl (Error ''Insufficient content to analyze. Neither text nor PDF data provided.'')
              else Inr [InlineData ''application/pdf'' (pdfBase64 s), TextPart (documentPrompt (title chapter) type)])"
    by (simp add: analysisParts_def)
  show ?thesis
    unfolding handleChapterAnalysis_def Let_def c option.case analyzeChapterContent_def p
    by (auto split: sum.splits)
qed

section \<open>Scanned mode decided by an upload\<close>

text \<open>
  A call of \<open>handleFileSelect\<close> during which the page handles no other event: the
  handler as a whole is the call taken from \<open>await\<close> to \<open>await\<close>.
\<close>

lemma handleFileSelect_resumed:
  "handleFileSelect env now file s =
     (let b = handleFileSelect_begin file s;
          r1 = resumeUpload env now (snd b) (fst b);
          r2 = resumeUpload env now (snd (fst r1)) (fst (fst r1));
          r3 = resumeUpload env now (snd (fst r2)) (fst (fst r2))
      in (fst (fst r3), snd r1 @ snd r2 @ snd r3))"
proof (cases "file_base64 file")
  case (Inl e)
  then show ?thesis
    by (simp add: handleFileSelect_def handleFileSelect_begin_def Let_def)
next
  case b: (Inr base64)
  show ?thesis
  proof (cases "extractTextFromPDF file")
    case (Inl e)
    with b show ?thesis
      by (simp add: handleFileSelect_def handleFileSelect_begin_def Let_def)
  next
    case (Inr r)
    obtain t isScanned where r: "r = (t, isScanned)" by (cases r)
    define final where "final = (isScanned \<or> length t < 500)"
    have f: "(if isScanned then True else if length t < 500 then True else isScanned) = final"
      by (simp add: final_def)
    obtain res reqs where i: "identifyChapters env (if final then [] else t)
                              (if final then Some base64 else None) = (res, reqs)"
      by (cases "identifyChapters env (if final then [] else t) (if final then Some base64 else None)")
    show ?thesis
      unfolding handleFileSelect_def handleFileSelect_begin_def Let_def
      by (cases res) (simp_all add: b Inr r f i Let_def)
  qed
qed

text \<open>
  What one such call decides. After an upload whose file is read and whose text is
  extracted, \<open>isScannedMode\<close> is true exactly when the extractor flags the document
  as scanned or the text has fewer than 500 characters, and the session the upload
  creates carries that mode and is the one shown. For a file none of whose pages
  gives text, the mode is scanned and the one identification request carries the
  document and no text context.
\<close>

lemma handleFileSelect_scanned_mode:
  "(\<forall>base64 t isScanned.
       file_base64 f = Inr base64 \<and> extractTextFromPDF f = Inr (t, isScanned) \<longrightarrow>
         isScannedMode (fst (handleFileSelect env now f s)) = (isScanned \<or> length t < 500)
       \<and> (\<forall>cs reqs.
             identifyChapters env (if isScanned \<or> length t < 500 then [] else t)
               (if isScanned \<or> length t < 500 then Some base64 else None) = (Inr cs, reqs)
             \<and> cs \<noteq> [] \<longrightarrow>
               sessions (fst (handleFileSelect env now f s)) =
                 uploadedSession now f cs base64 t (isScanned \<or> length t < 500) # sessions s
             \<and> shows_session (fst (handleFileSelect env now f s))
                   (uploadedSession now f cs base64 t (isScanned \<or> length t < 500))
             \<and> bs_isScannedMode (uploadedSession now f cs base64 t (isScanned \<or> length t < 500)) =
                   (isScanned \<or> length t < 500)))
   \<and> (\<forall>base64 pages.
        file_base64 f = Inr base64 \<and> base64 \<noteq> [] \<and> file_pages f = Inr pages
        \<and> (\<forall>p \<in> set pages. case p of None \<Rightarrow> True | Some items \<Rightarrow> trim (join '' '' items) = []) \<longrightarrow>
          isScannedMode (fst (handleFileSelect env now f s))
        \<and> snd (handleFileSelect env now f s) =
            [GenerateContent MODEL_NAME
               [InlineData ''application/pdf'' base64, TextPart documentIdentifyPrompt,
                TextPart chapterListPrompt]])"
proof (intro conjI allI impI)
  fix base64 t isScanned
  assume a: "file_base64 f = Inr base64 \<and> extractTextFromPDF f = Inr (t, isScanned)"
  let ?final = "isScanned \<or> length t < 500"
  obtain r reqs where i: "identifyChapters env (if ?final then [] else t)
                            (if ?final then Some base64 else None) = (r, reqs)"
    by (cases "identifyChapters env (if ?final then [] else t) (if ?final then Some base64 else None)")
  from a handleFileSelect_decides(1) [OF _ _ refl i]
  show "isScannedMode (fst (handleFileSelect env now f s)) = ?final" by blast
  fix cs reqs'
  assume b: "identifyChapters env (if ?final then [] else t)
               (if ?final then Some base64 else None) = (Inr cs, reqs') \<and> cs \<noteq> []"
  from a b handleFileSelect_decides(3) [OF _ _ refl, of f base64 t isScanned env "Inr cs" reqs' cs now s]
  show "sessions (fst (handleFileSelect env now f s)) = uploadedSession now f cs base64 t ?final # sessions s"
    and "shows_session (fst (handleFileSelect env now f s)) (uploadedSession now f cs base64 t ?final)"
    and "bs_isScannedMode (uploadedSession now f cs base64 t ?final) = ?final"
    by blast+
next
  fix base64 pages
  assume a: "file_base64 f = Inr base64 \<and> base64 \<noteq> [] \<and> file_pages f = Inr pages
        \<and> (\<forall>p \<in> set pages. case p of None \<Rightarrow> True | Some items \<Rightarrow> trim (join '' '' items) = [])"
  then have e: "extractTextFromPDF f = Inr ([], pages \<noteq> [])"
    using extractTextFromPDF_blank [of f pages] by blast
  have fin: "(pages \<noteq> [] \<or> length ([] :: string) < 500) = True" by simp
  obtain r reqs where i: "identifyChapters env (if True then [] else []) (if True then Some base64 else None) = (r, reqs)"
    by (cases "identifyChapters env (if True then [] else []) (if True then Some base64 else None)")
  from a have b: "file_base64 f = Inr base64" by blast
  from handleFileSelect_decides(1) [OF b e fin [symmetric] i]
  show "isScannedMode (fst (handleFileSelect env now f s))" by simp
  from handleFileSelect_decides(2) [OF b e fin [symmetric] i, of now s] i a
  show "snd (handleFileSelect env now f s) =
            [GenerateContent MODEL_NAME
               [InlineData ''application/pdf'' base64, TextPart documentIdentifyPrompt,
                TextPart chapterListPrompt]]"
    using identifyChapters_requests [of env "[]" "Some base64"] by simp
qed

lemma scannedFile_blank:
  "file_base64 scannedFile = Inr ''JVBERi0=''" "file_pages scannedFile = Inr (replicate 10 (Some []))"
  "\<forall>p \<in> set (replicate 10 (Some ([] :: string list))).
      case p of None \<Rightarrow> True | Some items \<Rightarrow> trim (join '' '' items) = []"
  by (simp_all add: scannedFile_def trim_def)

lemma exampleEnv_identifies:
  "identifyChapters exampleEnv t pdf =
     (Inr exampleChapters,
      [GenerateContent MODEL_NAME
        ((if pdf \<noteq> None \<and> pdf \<noteq> Some []
          then [InlineData ''application/pdf'' (the pdf), TextPart documentIdentifyPrompt]
          else [TextPart (textIdentifyPrompt (string_slice t 0 60000))])
         @ [TextPart chapterListPrompt])])"
  by (simp add: identifyChapters_def exampleEnv_def Let_def)

text \<open>The scanned book of the examples, uploaded alone: its session is shown, in scanned mode.\<close>

lemma scannedView_session:
  "sessions scannedView = [uploadedSession 1700 scannedFile exampleChapters ''JVBERi0='' [] True]"
  "step scannedView = Step_chapters"
  "shows_session scannedView (uploadedSession 1700 scannedFile exampleChapters ''JVBERi0='' [] True)"
proof -
  have e: "extractTextFromPDF scannedFile = Inr ([], True)"
    using extractTextFromPDF_blank [OF scannedFile_blank(2,3)] by simp
  have fin: "True = (True \<or> length ([] :: string) < 500)" by simp
  have i: "identifyChapters exampleEnv (if True then [] else [])
             (if True then Some ''JVBERi0='' else None) =
           (Inr exampleChapters, [GenerateContent MODEL_NAME
              [InlineData ''application/pdf'' ''JVBERi0='', TextPart documentIdentifyPrompt,
               TextPart chapterListPrompt]])"
    by (simp add: exampleEnv_identifies)
  have c: "exampleChapters \<noteq> []" by (simp add: exampleChapters_def)
  have n: "sessions initialApp = []" by (simp add: initialApp_def)
  note d = handleFileSelect_decides(3) [OF scannedFile_blank(1) e fin i refl c, of 1700 initialApp,
             folded scannedView_def, unfolded n]
  from d show "sessions scannedView = [uploadedSession 1700 scannedFile exampleChapters ''JVBERi0='' [] True]"
    by blast
  from d show "step scannedView = Step_chapters" by blast
  from d show "shows_session scannedView (uploadedSession 1700 scannedFile exampleChapters ''JVBERi0='' [] True)"
    by blast
qed

lemma textFile_extracted:
  "extractTextFromPDF textFile =
     Inr (''--- Page 1 ---'' @ [nl] @ ''Alpha '' @ replicate 500 CHR ''x'', False)"
  by code_simp

lemma textFile_start:
  "findStartIndex (''--- Page 1 ---'' @ [nl] @ ''Alpha '' @ replicate 500 CHR ''x'') ''Alpha'' = Some (Some 15)"
  by code_simp

lemma textFile_end:
  "findEndIndex (''--- Page 1 ---'' @ [nl] @ ''Alpha '' @ replicate 500 CHR ''x'') ''Alpha'' (Some ''Beta'') 15 = 521"
  by code_simp

lemma trim_unchanged:
  assumes "s \<noteq> []" "\<not> is_space (hd s)" "\<not> is_space (last s)"
  shows "trim s = s"
proof -
  have a: "dropWhile is_space s = s"
    using assms(2) by (simp add: dropWhile_eq_self_iff)
  have "hd (rev s) = last s" using assms(1) by (simp add: hd_rev)
  then have "dropWhile is_space (rev s) = rev s"
    using assms(3) by (simp add: dropWhile_eq_self_iff)
  with a show ?thesis by (simp add: trim_def)
qed

lemma textFile_chapter:
  "findChapterText (''--- Page 1 ---'' @ [nl] @ ''Alpha '' @ replicate 500 CHR ''x'') ''Alpha'' (Some ''Beta'') =
     Some (Some (''Alpha '' @ replicate 500 CHR ''x''))"
proof -
  let ?t = "''--- Page 1 ---'' @ [nl] @ ''Alpha '' @ replicate 500 CHR ''x''"
  let ?c = "''Alpha '' @ replicate 500 CHR ''x''"
  have s: "string_slice ?t 15 521 = ?c" by (simp add: string_slice_def)
  have c: "capped ?c = ?c" by (simp add: capped_def CHAR_LIMIT_def)
  have "\<not> is_space CHR ''A''" "\<not> is_space CHR ''x''" by (simp_all add: is_space_def)
  then have t: "trim ?c = ?c" by (intro trim_unchanged) simp_all
  show ?thesis
    unfolding findChapterText_def textFile_start textFile_end Let_def option.case s c t
    by simp
qed

text \<open>
  The run of the examples. When the logo is clicked, the scanned book is loaded
  again; the bytes and the text of the other file then overwrite the document, the
  text and the mode of the view, and leave the active session and its chapters.
\<close>

lemma staleUploadStart_view:
  "sessions staleUploadStart = [uploadedSession 1700 scannedFile exampleChapters ''JVBERi0='' [] True]"
  "activeSessionId staleUploadStart = Some ''1700''"
  "chapters staleUploadStart = exampleChapters"
  "step staleUploadStart = Step_chapters"
  "isScannedMode staleUploadStart"
  "pdfBase64 staleUploadStart = ''JVBERi0=''"
proof -
  have n: "show_nat 1700 = ''1700''" by code_simp
  have e: "staleUploadStart =
          loadSession (uploadedSession 1700 scannedFile exampleChapters ''JVBERi0='' [] True)
            (fst (handleFileSelect_begin textFile (handleUploadNew scannedView)))"
    by (simp add: staleUploadStart_def handleLogoClick_def handleFileSelect_begin_def
          handleUploadNew_def scannedView_session(1) del: show_nat.simps)
  show "sessions staleUploadStart = [uploadedSession 1700 scannedFile exampleChapters ''JVBERi0='' [] True]"
    "activeSessionId staleUploadStart = Some ''1700''"
    "chapters staleUploadStart = exampleChapters"
    "step staleUploadStart = Step_chapters"
    "isScannedMode staleUploadStart"
    "pdfBase64 staleUploadStart = ''JVBERi0=''"
    unfolding e
    by (simp_all add: loadSession_def handleFileSelect_begin_def
          handleUploadNew_def scannedView_session(1) uploadedSession_def n del: show_nat.simps)
qed

lemma staleUploadView_eq:
  "staleUploadView =
     staleUploadStart \<lparr> pdfBase64 := ''JVBERi1G'',
         pdfText := ''--- Page 1 ---'' @ [nl] @ ''Alpha '' @ replicate 500 CHR ''x'',
         isScannedMode := False \<rparr>"
proof -
  have b: "file_base64 textFile = Inr ''JVBERi1G''" by (simp add: textFile_def)
  have l: "\<not> length (''--- Page 1 ---'' @ [nl] @ ''Alpha '' @ replicate 500 CHR ''x'') < 500" by simp
  show ?thesis
    unfolding staleUploadView_def Let_def resumeUpload.simps b sum.case fst_conv snd_conv
      textFile_extracted prod.case
    using l by simp
qed


text \<open>
  Claim C4 does not hold of the page: the mode that was decided for a session is
  not what decides the path of its analyses. A call of \<open>handleFileSelect\<close> that
  is still waiting writes the document, the text and the mode of its own file into
  the view, whatever session the view shows by then. In the run of the examples
  the view shows the scanned session \<open>1700\<close>, the only one of the collection,
  with its chapters, at the list of chapters; the mode of the view is not scanned,
  its text and its document are those of the other file; the analysis of the
  chapter \<open>Alpha\<close> asked for there is a request with text of the other file and
  without a document. In the view that the upload of the scanned book left, the
  same analysis sends the document of the session and no text.
\<close>

theorem stale_upload_overwrites_scanned_view:
  "sessions staleUploadView = [uploadedSession 1700 scannedFile exampleChapters ''JVBERi0='' [] True]
   \<and> bs_isScannedMode (uploadedSession 1700 scannedFile exampleChapters ''JVBERi0='' [] True)
   \<and> bs_id (uploadedSession 1700 scannedFile exampleChapters ''JVBERi0='' [] True) = ''1700''
   \<and> bs_pdfBase64 (uploadedSession 1700 scannedFile exampleChapters ''JVBERi0='' [] True) = ''JVBERi0=''
   \<and> activeSessionId staleUploadView = Some ''1700''
   \<and> chapters staleUploadView = exampleChapters
   \<and> step staleUploadView = Step_chapters
   \<and> \<not> isScannedMode staleUploadView
   \<and> pdfBase64 staleUploadView = ''JVBERi1G''
   \<and> pdfText staleUploadView = ''--- Page 1 ---'' @ [nl] @ ''Alpha '' @ replicate 500 CHR ''x''
   \<and> (\<exists>s'. handleChapterAnalysis exampleEnv (hd exampleChapters) STANDARD staleUploadView =
          Some (s', [GenerateContent MODEL_NAME
                       [TextPart (textPrompt ''Alpha'' STANDARD (''Alpha '' @ replicate 500 CHR ''x''))]]))
   \<and> (\<exists>s'. handleChapterAnalysis exampleEnv (hd exampleChapters) STANDARD scannedView =
          Some (s', [GenerateContent MODEL_NAME
                       [InlineData ''application/pdf'' ''JVBERi0='',
                        TextPart (documentPrompt ''Alpha'' STANDARD)]]))"
proof -
  let ?x = "uploadedSession 1700 scannedFile exampleChapters ''JVBERi0='' [] True"
  let ?c = "hd exampleChapters"
  let ?t = "''--- Page 1 ---'' @ [nl] @ ''Alpha '' @ replicate 500 CHR ''x''"
  let ?found = "''Alpha '' @ replicate 500 CHR ''x''"
  have n: "show_nat 1700 = ''1700''" by code_simp
  have x: "bs_isScannedMode ?x" "bs_id ?x = ''1700''" "bs_pdfBase64 ?x = ''JVBERi0=''"
    by (simp_all add: uploadedSession_def n del: show_nat.simps)
  have v: "sessions staleUploadView = [?x]" "activeSessionId staleUploadView = Some ''1700''"
    "chapters staleUploadView = exampleChapters" "step staleUploadView = Step_chapters"
    "\<not> isScannedMode staleUploadView" "pdfBase64 staleUploadView = ''JVBERi1G''"
    "pdfText staleUploadView = ?t"
    unfolding staleUploadView_eq by (simp_all add: staleUploadStart_view)
  have tc: "title ?c = ''Alpha''" by (simp add: exampleChapters_def)
  have nx: "map_option title (nextChapterOf exampleChapters ?c) = Some ''Beta''"
    by (simp add: nextChapterOf_def exampleChapters_def)
  have f: "findChapterText (pdfText staleUploadView) (title ?c)
             (map_option title (nextChapterOf (chapters staleUploadView) ?c)) = Some (Some ?found)"
    unfolding v(3,7) tc nx by (rule textFile_chapter)
  have cc: "chapterContentFor staleUploadView ?c = Some (Some ?found)"
    unfolding chapterContentFor_def Let_def f using v(5) by simp
  have p: "analysisParts ''Alpha'' (Some ?found) STANDARD (Some ''JVBERi1G'') =
             Inr [TextPart (textPrompt ''Alpha'' STANDARD ?found)]"
    by (simp add: analysisParts_cases)
  have a: "\<exists>s'. handleChapterAnalysis exampleEnv ?c STANDARD staleUploadView =
          Some (s', [GenerateContent MODEL_NAME [TextPart (textPrompt ''Alpha'' STANDARD ?found)]])"
    unfolding handleChapterAnalysis_def Let_def cc option.case tc v(6) analyzeChapterContent_def p sum.case
    by (auto split: sum.splits option.splits)
  have m: "isScannedMode scannedView" "pdfBase64 scannedView = ''JVBERi0=''"
    using scannedView_session(3) by (simp_all add: shows_session_def uploadedSession_def)
  from handleChapterAnalysis_scanned [OF m(1), of exampleEnv ?c STANDARD]
  have b: "\<exists>s'. handleChapterAnalysis exampleEnv ?c STANDARD scannedView =
          Some (s', [GenerateContent MODEL_NAME
                       [InlineData ''application/pdf'' ''JVBERi0='',
                        TextPart (documentPrompt ''Alpha'' STANDARD)]])"
    unfolding m tc by simp
  from x v a b show ?thesis by blast
qed

section \<open>Falling back from a failed isolation of the chapter\<close>

text \<open>
  Claim C6. In text mode, when the locator returns not-found or a text of fewer
  than 200 characters and the view holds document bytes, the handler sets no
  error: it passes no chapter text and makes one request, with the whole document.
  When the remote call answers, the view stays on the analysis and shows the
  answer.
\<close>

theorem isolation_failure_falls_back:
  assumes "\<not> isScannedMode s"
    and "findChapterText (pdfText s) (title c)
           (map_option title (nextChapterOf (chapters s) c)) = Some found"
    and "found = None \<or> length (the found) < 200"
    and "pdfBase64 s \<noteq> []"
  shows "\<exists>s'. handleChapterAnalysis env c ty s =
            Some (s', [GenerateContent MODEL_NAME
                         [InlineData ''application/pdf'' (pdfBase64 s),
                          TextPart (documentPrompt (title c) ty)]])
          \<and> error s' = (case generateContent env
                            (GenerateContent MODEL_NAME
                               [InlineData ''application/pdf'' (pdfBase64 s),
                                TextPart (documentPrompt (title c) ty)]) of
                          Inr response \<Rightarrow> error s
                        | Inl e \<Rightarrow> ''Failed to generate analysis.'')
          \<and> (\<forall>response. generateContent env
                            (GenerateContent MODEL_NAME
                               [InlineData ''application/pdf'' (pdfBase64 s),
                                TextPart (documentPrompt (title c) ty)]) = Inr response \<longrightarrow>
                 step s' = Step_analysis \<and> \<not> loading s' \<and> selectedChapter s' = Some c
               \<and> currentAnalysis s' =
                   (case response_text response of
                      None \<Rightarrow> ''Could not generate summary.''
                    | Some t \<Rightarrow> if t = [] then ''Could not generate summary.'' else t))"
proof -
  have cc: "chapterContentFor s c = Some None"
    using assms(1,2,3) by (auto simp: chapterContentFor_def Let_def)
  have p: "analysisParts (title c) None ty (Some (pdfBase64 s)) =
             Inr [InlineData ''application/pdf'' (pdfBase64 s), TextPart (documentPrompt (title c) ty)]"
    using assms(4) by (simp add: analysisParts_def)
  show ?thesis
    unfolding handleChapterAnalysis_def Let_def cc option.case analyzeChapterContent_def p sum.case
    by (auto split: sum.splits option.splits)
qed

theorem isolation_failure_falls_back_witness:
  "\<not> isScannedMode exampleTextApp
   \<and> findChapterText (pdfText exampleTextApp) ''Alpha'' (Some ''Beta'') = Some (Some ''Alpha is short.'')
   \<and> (\<exists>s'. handleChapterAnalysis exampleEnv (hd exampleChapters) STANDARD exampleTextApp =
            Some (s', [GenerateContent MODEL_NAME
                         [InlineData ''application/pdf'' ''JVBERi0='',
                          TextPart (documentPrompt ''Alpha'' STANDARD)]])
          \<and> error s' = [] \<and> step s' = Step_analysis \<and> currentAnalysis s' = ''ok'')"
proof -
  let ?c = "hd exampleChapters"
  have v: "\<not> isScannedMode exampleTextApp" "pdfText exampleTextApp = ''Alpha is short. Beta too.''"
    "pdfBase64 exampleTextApp = ''JVBERi0=''" "chapters exampleTextApp = exampleChapters"
    "error exampleTextApp = []"
    by (simp_all add: exampleTextApp_def loadSession_def exampleSession_def)
  have tc: "title ?c = ''Alpha''" by (simp add: exampleChapters_def)
  have nx: "map_option title (nextChapterOf exampleChapters ?c) = Some ''Beta''"
    by (simp add: nextChapterOf_def exampleChapters_def)
  have st: "findStartIndex ''Alpha is short. Beta too.'' ''Alpha'' = Some (Some 0)" by code_simp
  have en: "findEndIndex ''Alpha is short. Beta too.'' ''Alpha'' (Some ''Beta'') 0 = 16" by code_simp
  have f: "findChapterText ''Alpha is short. Beta too.'' ''Alpha'' (Some ''Beta'') = Some (Some ''Alpha is short.'')"
    by (simp add: findChapterText_def st en string_slice_def capped_def CHAR_LIMIT_def trim_def is_space_def)
  have f': "findChapterText (pdfText exampleTextApp) (title ?c)
              (map_option title (nextChapterOf (chapters exampleTextApp) ?c)) = Some (Some ''Alpha is short.'')"
    unfolding v tc nx by (rule f)
  have l: "Some ''Alpha is short.'' = None \<or> length (the (Some ''Alpha is short.'')) < 200" by simp
  have b: "pdfBase64 exampleTextApp \<noteq> []" unfolding v by simp
  have g: "generateContent exampleEnv r = Inr \<lparr> response_text = Some ''ok'', response_inlineData = Some ''AAEC'' \<rparr>" for r
    by (simp add: exampleEnv_def)
  from isolation_failure_falls_back [OF v(1) f' l b, of exampleEnv STANDARD, unfolded g v tc]
  have "\<exists>s'. handleChapterAnalysis exampleEnv ?c STANDARD exampleTextApp =
            Some (s', [GenerateContent MODEL_NAME
                         [InlineData ''application/pdf'' ''JVBERi0='',
                          TextPart (documentPrompt ''Alpha'' STANDARD)]])
          \<and> error s' = [] \<and> step s' = Step_analysis \<and> currentAnalysis s' = ''ok''"
    by auto
  with v(1) f show ?thesis unfolding v by simp
qed

section \<open>Cleaning the text for speech\<close>

lemma remove_bold_set: "set (remove_bold s) \<subseteq> set s"
  by (induction s rule: remove_bold.induct) auto










section \<open>Sentences and chunks\<close>









section \<open>The requests and the output\<close>






section \<open>Text without markup\<close>









section \<open>What a sentence is\<close>




section \<open>The example sentences\<close>
















section \<open>Speech in chunks\<close>








end
